theory Spec2Isabelle
  imports Main "HOL-Library.Char_ord" "HOL-Library.List_Lexorder" "HOL-Library.Word"
begin

section \<open>The persisted store\<close>

text \<open>
  The controllers of \<^verbatim>\<open>student.controller.js\<close> read and write the tables of one
  PostgreSQL database through \<^verbatim>\<open>query\<close> and the model classes. A row is a record and a
  table is the list of its rows: \<^verbatim>\<open>SELECT ... WHERE\<close> filters the list, \<^verbatim>\<open>UPDATE ...
  WHERE\<close> maps over it, \<^verbatim>\<open>INSERT\<close> appends. Identifiers are the UUID strings the code
  passes around; the vote and feedback counters are SQL integers, taken \<^verbatim>\<open>NOT NULL\<close>.
\<close>

type_synonym uuid = string

text \<open>
  A JSON value as far as the ranking code looks at it: a rank arrives in the request
  body as a number (integers here) or as a string.
\<close>

datatype jsval = JNum int | JStr string

record student =
  student_id :: uuid
  registration_no :: string
  student_school_id :: uuid
  is_inside_event :: bool
  has_completed_ranking :: bool
  selected_category :: "string option"
  student_feedback_count :: int

record stall =
  stall_id :: uuid
  stall_number :: string
  stall_name :: string
  stall_school_id :: uuid
  qr_code_token :: string
  total_feedback_count :: int
  rank_1_votes :: int
  rank_2_votes :: int
  rank_3_votes :: int
  weighted_score :: int

record feedback =
  fb_student_id :: uuid
  fb_stall_id :: uuid
  fb_rating :: int
  fb_comment :: "string option"

record ranking =
  rk_student_id :: uuid
  rk_stall_id :: uuid
  rk_rank :: jsval

record volunteer =
  volunteer_id :: uuid
  is_active :: bool
  total_scans_performed :: int

record store =
  students :: "student list"
  stalls :: "stall list"
  volunteers :: "volunteer list"
  feedbacks :: "feedback list"
  rankings_table :: "ranking list"

text \<open>
  Modelled from the spec: \<^verbatim>\<open>query\<close> of \<^verbatim>\<open>config/db.js\<close> is not among the sources. Section
  6 of the specification gives the store an atomic mutation primitive that commits all
  writes made inside it together or none; accordingly the statements of a request go
  to one database session with PostgreSQL's \<^verbatim>\<open>BEGIN\<close>, \<^verbatim>\<open>COMMIT\<close> and \<^verbatim>\<open>ROLLBACK\<close>. A
  session holds the rows as it sees them and, while a transaction is open, the rows as
  they were at \<^verbatim>\<open>BEGIN\<close>. What every other session can observe is the committed store.
  Outside a transaction each statement commits by itself.
\<close>

record db =
  data :: store
  saved :: "store option"

definition committed :: "db \<Rightarrow> store" where
  "committed d = (case saved d of None \<Rightarrow> data d | Some s \<Rightarrow> s)"

text \<open>The names of the three vote columns, chosen per ranking by the controller.\<close>

datatype column = Rank_1_votes | Rank_2_votes | Rank_3_votes

text \<open>
  The statements the writing controllers send. Each \<^verbatim>\<open>await query(...)\<close> or model call
  of the source that writes, opens or closes a transaction is one statement.
\<close>

datatype stmt =
    BEGIN
  | COMMIT
  | ROLLBACK
  | Feedback_create feedback
  | Student_incrementFeedbackCount uuid
  | Update_stall_feedback_count uuid
  | Ranking_bulkCreate "ranking list"
  | Update_student_ranking uuid
  | Update_stall_votes column uuid
  | Select_ranked uuid
  | Student_processCheckInOut uuid
  | Update_volunteer_scans uuid

text \<open>\<^verbatim>\<open>UPDATE table SET ... WHERE id = $1\<close>.\<close>

definition update_where :: "('r \<Rightarrow> bool) \<Rightarrow> ('r \<Rightarrow> 'r) \<Rightarrow> 'r list \<Rightarrow> 'r list" where
  "update_where p f rows = map (\<lambda>r. if p r then f r else r) rows"

text \<open>
  The \<^verbatim>\<open>UPDATE stalls SET col = col + 1, weighted_score = (rank_1_votes * 5) +
  (rank_2_votes * 3) + (rank_3_votes * 1)\<close> of \<^verbatim>\<open>submitSchoolRanking\<close>. In SQL every
  expression on the right of \<^verbatim>\<open>SET\<close> reads the row as it was before the statement, so
  the score is computed from the counters before the increment.
\<close>

definition set_votes :: "column \<Rightarrow> stall \<Rightarrow> stall" where
  "set_votes c r =
     (let score = rank_1_votes r * 5 + rank_2_votes r * 3 + rank_3_votes r * 1 in
      (case c of
         Rank_1_votes \<Rightarrow> r\<lparr>rank_1_votes := rank_1_votes r + 1, weighted_score := score\<rparr>
       | Rank_2_votes \<Rightarrow> r\<lparr>rank_2_votes := rank_2_votes r + 1, weighted_score := score\<rparr>
       | Rank_3_votes \<Rightarrow> r\<lparr>rank_3_votes := rank_3_votes r + 1, weighted_score := score\<rparr>))"

text \<open>
  Modelled from the spec: \<^verbatim>\<open>Feedback.create\<close>, \<^verbatim>\<open>Student.incrementFeedbackCount\<close>,
  \<^verbatim>\<open>Ranking.bulkCreate\<close> and \<^verbatim>\<open>Student.processCheckInOut\<close> (the model classes are not
  among the sources). The first three insert the rows they are given and add one to
  the student's own feedback counter; the last flips \<^verbatim>\<open>is_inside_event\<close> of the
  student (``if false, set flag true; if true, set flag false''). The other statements
  are the SQL texts of the controllers.
\<close>

definition write_stmt :: "stmt \<Rightarrow> store \<Rightarrow> store" where
  "write_stmt q s =
     (case q of
        Feedback_create f \<Rightarrow> s\<lparr>feedbacks := feedbacks s @ [f]\<rparr>
      | Student_incrementFeedbackCount i \<Rightarrow>
          s\<lparr>students := update_where (\<lambda>r. student_id r = i)
            (\<lambda>r. r\<lparr>student_feedback_count := student_feedback_count r + 1\<rparr>) (students s)\<rparr>
      | Update_stall_feedback_count i \<Rightarrow>
          s\<lparr>stalls := update_where (\<lambda>r. stall_id r = i)
            (\<lambda>r. r\<lparr>total_feedback_count := total_feedback_count r + 1\<rparr>) (stalls s)\<rparr>
      | Ranking_bulkCreate rs \<Rightarrow> s\<lparr>rankings_table := rankings_table s @ rs\<rparr>
      | Update_student_ranking i \<Rightarrow>
          s\<lparr>students := update_where (\<lambda>r. student_id r = i)
            (\<lambda>r. r\<lparr>has_completed_ranking := True, selected_category := Some ''CATEGORY_2''\<rparr>)
            (students s)\<rparr>
      | Update_stall_votes c i \<Rightarrow>
          s\<lparr>stalls := update_where (\<lambda>r. stall_id r = i) (set_votes c) (stalls s)\<rparr>
      | Student_processCheckInOut i \<Rightarrow>
          s\<lparr>students := update_where (\<lambda>r. student_id r = i)
            (\<lambda>r. r\<lparr>is_inside_event := \<not> is_inside_event r\<rparr>) (students s)\<rparr>
      | Update_volunteer_scans i \<Rightarrow>
          s\<lparr>volunteers := update_where (\<lambda>r. volunteer_id r = i)
            (\<lambda>r. r\<lparr>total_scans_performed := total_scans_performed r + 1\<rparr>) (volunteers s)\<rparr>
      | _ \<Rightarrow> s)"

definition exec :: "stmt \<Rightarrow> db \<Rightarrow> db" where
  "exec q d =
     (case q of
        BEGIN \<Rightarrow> (case saved d of None \<Rightarrow> d\<lparr>saved := Some (data d)\<rparr> | Some _ \<Rightarrow> d)
      | COMMIT \<Rightarrow> d\<lparr>saved := None\<rparr>
      | ROLLBACK \<Rightarrow> (case saved d of None \<Rightarrow> d | Some s \<Rightarrow> \<lparr>data = s, saved = None\<rparr>)
      | _ \<Rightarrow> d\<lparr>data := write_stmt q (data d)\<rparr>)"

text \<open>
  Running the statements of a \<^verbatim>\<open>try\<close> block in order. Any \<^verbatim>\<open>await\<close> may reject; the
  first argument says which statement (counted from 0) throws, if any. A statement
  that throws has no effect, the ones after it are not sent, and the flag returned
  says that control went to the \<^verbatim>\<open>catch\<close> block.
\<close>

fun run :: "nat option \<Rightarrow> stmt list \<Rightarrow> db \<Rightarrow> db \<times> bool" where
  "run _ [] d = (d, False)"
| "run (Some 0) (q # qs) d = (d, True)"
| "run (Some (Suc k)) (q # qs) d = run (Some k) qs (exec q d)"
| "run None (q # qs) d = run None qs (exec q d)"

text \<open>
  The states the session passes through while \<open>run\<close> does that: before the first
  statement and after each statement that was executed.
\<close>

fun trace :: "nat option \<Rightarrow> stmt list \<Rightarrow> db \<Rightarrow> db list" where
  "trace _ [] d = [d]"
| "trace (Some 0) (q # qs) d = [d]"
| "trace (Some (Suc k)) (q # qs) d = d # trace (Some k) qs (exec q d)"
| "trace None (q # qs) d = d # trace None qs (exec q d)"

text \<open>
  The two response helpers, \<^verbatim>\<open>errorResponse(res, message, status)\<close> and
  \<^verbatim>\<open>successResponse(res, data, message, status)\<close>, and \<^verbatim>\<open>next(error)\<close> for an
  exception that reaches the outer \<^verbatim>\<open>catch\<close>.
\<close>

datatype 'a response =
    ErrorResponse string nat
  | SuccessResponse 'a string nat
  | NextError

definition is_success :: "'a response \<Rightarrow> bool" where
  "is_success r = (case r of SuccessResponse _ _ _ \<Rightarrow> True | _ \<Rightarrow> False)"

text \<open>
  Modelled from the spec: the lookups of the model classes (\<^verbatim>\<open>Student.findById\<close>,
  \<^verbatim>\<open>Student.findByRegistrationNo\<close>, \<^verbatim>\<open>Stall.findById\<close>, \<^verbatim>\<open>Stall.findByQRToken\<close>,
  \<^verbatim>\<open>Volunteer.findById\<close>, \<^verbatim>\<open>Feedback.countByStudent\<close>,
  \<^verbatim>\<open>Feedback.findByStudentAndStall\<close>), which are not among the sources, are the
  directory lookups of section 6: the row with the given key, or nothing.
\<close>

definition Student_findById :: "uuid \<Rightarrow> store \<Rightarrow> student option" where
  "Student_findById i s = find (\<lambda>r. student_id r = i) (students s)"

definition Student_findByRegistrationNo :: "string \<Rightarrow> store \<Rightarrow> student option" where
  "Student_findByRegistrationNo n s = find (\<lambda>r. registration_no r = n) (students s)"

definition Stall_findById :: "uuid \<Rightarrow> store \<Rightarrow> stall option" where
  "Stall_findById i s = find (\<lambda>r. stall_id r = i) (stalls s)"


definition Volunteer_findById :: "uuid \<Rightarrow> store \<Rightarrow> volunteer option" where
  "Volunteer_findById i s = find (\<lambda>r. volunteer_id r = i) (volunteers s)"

definition Feedback_countByStudent :: "uuid \<Rightarrow> store \<Rightarrow> nat" where
  "Feedback_countByStudent u s = length (filter (\<lambda>f. fb_student_id f = u) (feedbacks s))"

definition Feedback_findByStudentAndStall :: "uuid \<Rightarrow> uuid \<Rightarrow> store \<Rightarrow> feedback option" where
  "Feedback_findByStudentAndStall u i s =
     find (\<lambda>f. fb_student_id f = u \<and> fb_stall_id f = i) (feedbacks s)"

section \<open>FeedbackGate: \<^verbatim>\<open>submitFeedback\<close>\<close>

text \<open>
  The request body: \<^verbatim>\<open>stall_id\<close>, \<^verbatim>\<open>rating\<close> and \<^verbatim>\<open>comment\<close>, each absent
  (\<open>None\<close>) or present. A present rating is an integer JSON number.
\<close>

record feedback_body =
  body_stall_id :: "string option"
  body_rating :: "int option"
  body_comment :: "string option"

record feedback_reply =
  reply_feedback :: feedback
  reply_stall_name :: string
  reply_stall_number :: string
  total_feedbacks_given :: nat
  remaining_feedbacks :: int

text \<open>
  JavaScript's \<^verbatim>\<open>!x\<close>: a missing value, the empty string and the number 0 are falsy.
\<close>

definition falsy_string :: "string option \<Rightarrow> bool" where
  "falsy_string x = (x = None \<or> x = Some [])"

definition falsy_number :: "int option \<Rightarrow> bool" where
  "falsy_number x = (x = None \<or> x = Some 0)"

text \<open>
  \<^verbatim>\<open>submitFeedback\<close>, for the logged-in student \<open>u\<close> (\<^verbatim>\<open>req.user.id\<close>). The three
  writes at the end are three separate statements with no \<^verbatim>\<open>BEGIN\<close> around them;
  \<open>fault\<close> says which of them throws, if any. A read that throws ends the request
  before any write and is not modelled.
\<close>

definition submitFeedback ::
  "nat option \<Rightarrow> uuid \<Rightarrow> feedback_body \<Rightarrow> db \<Rightarrow> db \<times> feedback_reply response" where
  "submitFeedback fault u b d =
     (case (body_stall_id b, body_rating b) of
        (Some sid, Some rating) \<Rightarrow>
          if sid = [] \<or> rating = 0 then
            (d, ErrorResponse ''Stall ID and rating are required'' 400)
          else if rating < 1 \<or> rating > 5 then
            (d, ErrorResponse ''Rating must be between 1 and 5'' 400)
          else
            (case Student_findById u (data d) of
               None \<Rightarrow> (d, ErrorResponse ''Student not found. Please login again.'' 404)
             | Some student \<Rightarrow>
                 if \<not> is_inside_event student then
                   (d, ErrorResponse
                         ''You must be checked in at the event to submit feedback'' 403)
                 else
                   let feedbackCount = Feedback_countByStudent u (data d) in
                   if feedbackCount \<ge> 200 then
                     (d, ErrorResponse ''You have reached the maximum feedback limit (200)'' 403)
                   else
                     (case Stall_findById sid (data d) of
                        None \<Rightarrow> (d, ErrorResponse ''Stall not found'' 404)
                      | Some stall \<Rightarrow>
                          if Feedback_findByStudentAndStall u sid (data d) \<noteq> None then
                            (d, ErrorResponse
                                  ''You have already submitted feedback for this stall'' 409)
                          else
                            let fb = \<lparr>fb_student_id = u, fb_stall_id = sid,
                                      fb_rating = rating,
                                      fb_comment = (if falsy_string (body_comment b) then None
                                                    else body_comment b)\<rparr>;
                                (d', threw) =
                                  run fault
                                    [Feedback_create fb,
                                     Student_incrementFeedbackCount u,
                                     Update_stall_feedback_count sid] d
                            in if threw then (d', NextError)
                               else (d', SuccessResponse
                                      \<lparr>reply_feedback = fb,
                                       reply_stall_name = stall_name stall,
                                       reply_stall_number = stall_number stall,
                                       total_feedbacks_given = feedbackCount + 1,
                                       remaining_feedbacks = 200 - (int feedbackCount + 1)\<rparr>
                                      ''Feedback submitted successfully'' 201)))
      | _ \<Rightarrow> (d, ErrorResponse ''Stall ID and rating are required'' 400))"

text \<open>The failures of the spec's taxonomy, as the responses the controller sends.\<close>

definition MissingInput :: "'a response" where
  "MissingInput = ErrorResponse ''Stall ID and rating are required'' 400"

definition OutOfRange :: "'a response" where
  "OutOfRange = ErrorResponse ''Rating must be between 1 and 5'' 400"

definition NotCheckedIn :: "'a response" where
  "NotCheckedIn = ErrorResponse ''You must be checked in at the event to submit feedback'' 403"

definition QuotaExceeded :: "'a response" where
  "QuotaExceeded = ErrorResponse ''You have reached the maximum feedback limit (200)'' 403"

definition AlreadyReviewed :: "'a response" where
  "AlreadyReviewed = ErrorResponse ''You have already submitted feedback for this stall'' 409"

section \<open>RankingTransaction: \<^verbatim>\<open>submitSchoolRanking\<close>\<close>

text \<open>One element \<^verbatim>\<open>{ stall_id, rank }\<close> of \<^verbatim>\<open>req.body.rankings\<close>.\<close>

record ranking_entry =
  entry_stall_id :: uuid
  entry_rank :: jsval

text \<open>Decimal digits of a number, as \<^verbatim>\<open>String(n)\<close> and a template literal print it.\<close>

definition digit :: "nat \<Rightarrow> char" where
  "digit k = ''0123456789'' ! k"

fun string_of_nat :: "nat \<Rightarrow> string" where
  "string_of_nat n =
     (if n < 10 then [digit n] else string_of_nat (n div 10) @ [digit (n mod 10)])"

definition string_of_int :: "int \<Rightarrow> string" where
  "string_of_int i = (if i < 0 then CHR ''-'' # string_of_nat (nat (- i)) else string_of_nat (nat i))"

definition js_toString :: "jsval \<Rightarrow> string" where
  "js_toString v = (case v of JNum n \<Rightarrow> string_of_int n | JStr s \<Rightarrow> s)"

text \<open>
  \<^verbatim>\<open>Array.prototype.sort()\<close> with no comparator: a stable sort that compares the
  elements as strings, by code unit. \<^verbatim>\<open>Array.prototype.join(sep)\<close>.
\<close>

definition js_sort :: "jsval list \<Rightarrow> jsval list" where
  "js_sort xs = sort_key js_toString xs"

fun js_join :: "string \<Rightarrow> string list \<Rightarrow> string" where
  "js_join sep [] = []"
| "js_join sep [x] = x"
| "js_join sep (x # y # ys) = x @ sep @ js_join sep (y # ys)"

text \<open>The column a ranking votes for: \<^verbatim>\<open>rank === 1 ? ... : rank === 2 ? ... : ...\<close>.\<close>

definition columnName :: "jsval \<Rightarrow> column" where
  "columnName r =
     (if r = JNum 1 then Rank_1_votes else if r = JNum 2 then Rank_2_votes else Rank_3_votes)"

text \<open>
  The checks of \<^verbatim>\<open>submitSchoolRanking\<close> before its \<^verbatim>\<open>try\<close> block, on the store as read
  at that moment: \<open>Inl\<close> is the response sent, \<open>Inr\<close> the rankings to write. The body is
  \<open>None\<close> when \<^verbatim>\<open>rankings\<close> is not an array. The stall query returns the rows whose id
  is among the three; the names in the last message are in table order.
\<close>

definition submitSchoolRanking_checks ::
  "uuid \<Rightarrow> ranking_entry list option \<Rightarrow> store \<Rightarrow>
   ranking list response + ranking_entry list" where
  "submitSchoolRanking_checks u body s =
     (case body of
        None \<Rightarrow> Inl (ErrorResponse ''Must provide exactly 3 stall rankings'' 400)
      | Some rankings \<Rightarrow>
          if length rankings \<noteq> 3 then
            Inl (ErrorResponse ''Must provide exactly 3 stall rankings'' 400)
          else
            let ranks = js_sort (map entry_rank rankings) in
            if js_join '','' (map js_toString ranks) \<noteq> ''1,2,3'' then
              Inl (ErrorResponse ''Rankings must be exactly 1, 2, and 3 (no duplicates)'' 400)
            else
              let stallIds = map entry_stall_id rankings in
              if length (remdups stallIds) \<noteq> 3 then
                Inl (ErrorResponse ''Must rank 3 different stalls'' 400)
              else
                (case Student_findById u s of
                   None \<Rightarrow> Inl (ErrorResponse ''Student not found'' 404)
                 | Some student \<Rightarrow>
                     if has_completed_ranking student then
                       Inl (ErrorResponse
                         ''You have already submitted your rankings. This is ONE-TIME only.'' 409)
                     else
                       let stallsToRank = filter (\<lambda>r. stall_id r \<in> set stallIds) (stalls s) in
                       if length stallsToRank \<noteq> 3 then
                         Inl (ErrorResponse ''One or more stalls not found'' 404)
                       else
                         let invalidStalls =
                               filter (\<lambda>r. stall_school_id r \<noteq> student_school_id student)
                                 stallsToRank in
                         if length invalidStalls > 0 then
                           Inl (ErrorResponse
                             (''You can only rank stalls from YOUR school. Invalid: '' @
                              js_join '', '' (map stall_name invalidStalls)) 403)
                         else Inr rankings))"

text \<open>
  The statements of the \<^verbatim>\<open>try\<close> block, in the order they are sent: \<^verbatim>\<open>BEGIN\<close>, the
  writes (the insert of the three rows, the update of the student, one update of a
  stall per ranking), \<^verbatim>\<open>COMMIT\<close>, and the query that reads the rows back for the
  response.
\<close>

definition ranking_writes :: "uuid \<Rightarrow> ranking_entry list \<Rightarrow> stmt list" where
  "ranking_writes u rankings =
     [Ranking_bulkCreate
        (map (\<lambda>r. \<lparr>rk_student_id = u, rk_stall_id = entry_stall_id r, rk_rank = entry_rank r\<rparr>)
           rankings),
      Update_student_ranking u] @
     map (\<lambda>r. Update_stall_votes (columnName (entry_rank r)) (entry_stall_id r)) rankings"

definition ranking_statements :: "uuid \<Rightarrow> ranking_entry list \<Rightarrow> stmt list" where
  "ranking_statements u rankings = [BEGIN] @ ranking_writes u rankings @ [COMMIT, Select_ranked u]"

text \<open>
  The \<^verbatim>\<open>try\<close> block and its \<^verbatim>\<open>catch\<close>, which sends \<^verbatim>\<open>ROLLBACK\<close> and rethrows. The
  response carries the student's ranking rows, ordered by rank.
\<close>

definition submitSchoolRanking_tx ::
  "nat option \<Rightarrow> uuid \<Rightarrow> ranking_entry list \<Rightarrow> db \<Rightarrow> db \<times> ranking list response" where
  "submitSchoolRanking_tx fault u rankings d =
     (let (d', threw) = run fault (ranking_statements u rankings) d in
      if threw then (exec ROLLBACK d', NextError)
      else (d', SuccessResponse
                  (sort_key (js_toString \<circ> rk_rank)
                     (filter (\<lambda>r. rk_student_id r = u) (rankings_table (data d'))))
                  ''School rankings submitted'' 201))"

text \<open>
  The whole controller when nothing runs between its checks and its transaction.
\<close>

definition submitSchoolRanking ::
  "nat option \<Rightarrow> uuid \<Rightarrow> ranking_entry list option \<Rightarrow> db \<Rightarrow> db \<times> ranking list response" where
  "submitSchoolRanking fault u body d =
     (case submitSchoolRanking_checks u body (data d) of
        Inl r \<Rightarrow> (d, r)
      | Inr rankings \<Rightarrow> submitSchoolRanking_tx fault u rankings d)"

text \<open>
  Two requests handled concurrently. Every \<^verbatim>\<open>await\<close> of a controller hands control
  back to the event loop, so the checks of the second request can run before the
  transaction of the first: both read the store as it is at the start, then the two
  transactions run one after the other.
\<close>

definition two_concurrent_submissions ::
  "uuid \<Rightarrow> ranking_entry list option \<Rightarrow> uuid \<Rightarrow> ranking_entry list option \<Rightarrow> db \<Rightarrow>
   db \<times> ranking list response \<times> ranking list response" where
  "two_concurrent_submissions u1 body1 u2 body2 d =
     (let c1 = submitSchoolRanking_checks u1 body1 (data d);
          c2 = submitSchoolRanking_checks u2 body2 (data d);
          (d1, r1) = (case c1 of Inl r \<Rightarrow> (d, r)
                      | Inr rankings \<Rightarrow> submitSchoolRanking_tx None u1 rankings d);
          (d2, r2) = (case c2 of Inl r \<Rightarrow> (d1, r)
                      | Inr rankings \<Rightarrow> submitSchoolRanking_tx None u2 rankings d1)
      in (d2, r1, r2))"

text \<open>
  The statements of one request that reach the database: those of the \<^verbatim>\<open>try\<close> block up
  to the one that throws, then the \<^verbatim>\<open>ROLLBACK\<close> of the \<^verbatim>\<open>catch\<close> block.
\<close>

definition sent_statements :: "nat option \<Rightarrow> uuid \<Rightarrow> ranking_entry list \<Rightarrow> stmt list" where
  "sent_statements fault u rankings =
     (case fault of
        None \<Rightarrow> ranking_statements u rankings
      | Some k \<Rightarrow>
          if k < length (ranking_statements u rankings)
          then take k (ranking_statements u rankings) @ [ROLLBACK]
          else ranking_statements u rankings)"

text \<open>
  The controller sends every statement, \<^verbatim>\<open>BEGIN\<close>, \<^verbatim>\<open>COMMIT\<close> and \<^verbatim>\<open>ROLLBACK\<close> included,
  through the module-level \<^verbatim>\<open>query\<close> that all requests share, and holds no connection
  of its own. Each \<^verbatim>\<open>await\<close> hands control back to the event loop, so the statements
  of two requests in flight reach the database in some interleaving. The schedule
  says, statement by statement, which of the two requests sends next (\<open>True\<close> for the
  first); when the schedule ends, the first request sends what it has left, then the
  second.
\<close>

fun interleave :: "bool list \<Rightarrow> 'a list \<Rightarrow> 'a list \<Rightarrow> 'a list" where
  "interleave [] xs ys = xs @ ys"
| "interleave (b # bs) xs ys =
     (if b then (case xs of [] \<Rightarrow> interleave bs xs ys | x # xs' \<Rightarrow> x # interleave bs xs' ys)
      else (case ys of [] \<Rightarrow> interleave bs xs ys | y # ys' \<Rightarrow> y # interleave bs xs ys'))"

text \<open>
  The other reading of the absent \<^verbatim>\<open>query\<close>. Every connection that the sources open
  is \<^verbatim>\<open>neon(process.env.NEON_DATABASE_URL)\<close>, which sends each statement as a request of
  its own. Then no session lasts from one statement to the next: \<^verbatim>\<open>BEGIN\<close>, \<^verbatim>\<open>COMMIT\<close>
  and \<^verbatim>\<open>ROLLBACK\<close> hold nothing, and every write is committed at once.
\<close>

definition run_per_call :: "stmt list \<Rightarrow> store \<Rightarrow> store" where
  "run_per_call qs s = fold write_stmt qs s"

text \<open>The failures of the spec's taxonomy, as the responses the controller sends.\<close>

definition InvalidRankSet :: "'a response" where
  "InvalidRankSet = ErrorResponse ''Rankings must be exactly 1, 2, and 3 (no duplicates)'' 400"

definition DuplicateStall :: "'a response" where
  "DuplicateStall = ErrorResponse ''Must rank 3 different stalls'' 400"

definition AlreadySubmitted :: "'a response" where
  "AlreadySubmitted =
     ErrorResponse ''You have already submitted your rankings. This is ONE-TIME only.'' 409"

definition StallNotFound :: "'a response" where
  "StallNotFound = ErrorResponse ''One or more stalls not found'' 404"

definition is_CrossSchoolStall :: "'a response \<Rightarrow> bool" where
  "is_CrossSchoolStall r =
     (case r of
        ErrorResponse m c \<Rightarrow>
          c = 403 \<and> take 52 m = ''You can only rank stalls from YOUR school. Invalid: ''
      | _ \<Rightarrow> False)"

section \<open>AttendanceLedger: the volunteer's scan\<close>

datatype direction = ENTRY | EXIT

text \<open>
  The corrected scan logic of the volunteer controller, for the volunteer \<open>v\<close>
  (\<^verbatim>\<open>req.user.id\<close>). \<^verbatim>\<open>QRCodeService.verifyStudentQRToken\<close> is not among the sources
  and is the parameter \<open>verify\<close>: the registration number it decodes, or \<open>None\<close>.
  Reading a property of \<^verbatim>\<open>null\<close> throws. The excerpt ends before the response is sent;
  the status is the one its testing guide expects, 201 for an entry and 200 for an
  exit, and the message is left empty.
\<close>

definition scanStudentQR ::
  "(string \<Rightarrow> string option) \<Rightarrow> uuid \<Rightarrow> string \<Rightarrow> db \<Rightarrow> db \<times> direction response" where
  "scanStudentQR verify v qr_token d =
     (case verify qr_token of
        None \<Rightarrow> (d, NextError)
      | Some reg \<Rightarrow>
          let student = Student_findByRegistrationNo reg (data d);
              volunteer = Volunteer_findById v (data d) in
          if (case volunteer of None \<Rightarrow> False | Some vr \<Rightarrow> \<not> is_active vr) then
            (d, ErrorResponse ''Your volunteer account is inactive'' 403)
          else
            (case student of
               None \<Rightarrow> (d, NextError)
             | Some st \<Rightarrow>
                 let action = (if is_inside_event st then EXIT else ENTRY);
                     (d', threw) =
                       run None [Student_processCheckInOut (student_id st),
                                 Update_volunteer_scans v] d
                 in (d', SuccessResponse action [] (if action = ENTRY then 201 else 200))))"

text \<open>
  A sequence of scans of the same token by the same volunteer: the directions
  recorded, in order, and the session after the last scan. A scan that does not
  succeed records nothing.
\<close>

fun scans ::
  "(string \<Rightarrow> string option) \<Rightarrow> uuid \<Rightarrow> string \<Rightarrow> nat \<Rightarrow> db \<Rightarrow> direction list \<times> db" where
  "scans verify v t 0 d = ([], d)"
| "scans verify v t (Suc n) d =
     (case scanStudentQR verify v t d of
        (d', SuccessResponse a _ _) \<Rightarrow> (let (as, d'') = scans verify v t n d' in (a # as, d''))
      | (d', _) \<Rightarrow> scans verify v t n d')"

text \<open>The sequence \<^verbatim>\<open>ENTRY, EXIT, ENTRY, ...\<close> of a given length, from a given flag.\<close>

fun alternating :: "bool \<Rightarrow> nat \<Rightarrow> direction list" where
  "alternating inside 0 = []"
| "alternating inside (Suc n) = (if inside then EXIT else ENTRY) # alternating (\<not> inside) n"

section \<open>TokenCodec\<close>

subsection \<open>Stall tokens\<close>

text \<open>
  The stall token of the import guide:
  \<^verbatim>\<open>crypto.randomBytes(4).toString('base64').replace(/[^a-z0-9]/gi, '').toLowerCase()
  .substring(0, 6)\<close> and \<^verbatim>\<open>`STALL_${row.stall_number}_${timestamp}_${randomId}`\<close>, refused
  with an exception when longer than 50 characters.
\<close>

definition b64 :: "nat \<Rightarrow> char" where
  "b64 n = ''ABCDEFGHIJKLMNOPQRSTUVWXYZabcdefghijklmnopqrstuvwxyz0123456789+/'' ! n"

fun base64 :: "8 word list \<Rightarrow> string" where
  "base64 [] = []"
| "base64 [a] = [b64 (unat a div 4), b64 (unat a mod 4 * 16), CHR ''='', CHR ''='']"
| "base64 [a, b] =
     [b64 (unat a div 4), b64 (unat a mod 4 * 16 + unat b div 16), b64 (unat b mod 16 * 4),
      CHR ''='']"
| "base64 (a # b # c # rest) =
     [b64 (unat a div 4), b64 (unat a mod 4 * 16 + unat b div 16),
      b64 (unat b mod 16 * 4 + unat c div 64), b64 (unat c mod 64)] @ base64 rest"

definition is_digit :: "char \<Rightarrow> bool" where
  "is_digit c = (48 \<le> (of_char c :: nat) \<and> (of_char c :: nat) \<le> 57)"

definition is_upper :: "char \<Rightarrow> bool" where
  "is_upper c = (65 \<le> (of_char c :: nat) \<and> (of_char c :: nat) \<le> 90)"

definition is_lower :: "char \<Rightarrow> bool" where
  "is_lower c = (97 \<le> (of_char c :: nat) \<and> (of_char c :: nat) \<le> 122)"

definition lower_of :: "char \<Rightarrow> char" where
  "lower_of c =
     (if is_upper c then ''abcdefghijklmnopqrstuvwxyz'' ! ((of_char c :: nat) - 65) else c)"

definition toLowerCase :: "string \<Rightarrow> string" where
  "toLowerCase s = map lower_of s"

definition randomId :: "8 word \<times> 8 word \<times> 8 word \<times> 8 word \<Rightarrow> string" where
  "randomId bytes =
     (case bytes of (b0, b1, b2, b3) \<Rightarrow>
        take 6 (toLowerCase
          (filter (\<lambda>c. is_lower c \<or> is_upper c \<or> is_digit c) (base64 [b0, b1, b2, b3]))))"





subsection \<open>Participant tokens\<close>

text \<open>
  Modelled from the spec: \<^verbatim>\<open>QRCodeService\<close> is not among the sources, so the rotating
  participant token follows section 4.1 of the specification. A token carries an
  identity claim and a signature; \<open>sign\<close> is the signing function under the
  process-wide secret. The rotation interval and the number of grace windows are
  configuration.
\<close>

datatype token_kind = STUDENT | STALL

record identity_claim =
  subject_id :: string
  issued_window :: nat
  nonce :: string
  kind :: token_kind

datatype 'sig token = Token identity_claim 'sig | Garbage string

datatype token_error = Expired | BadSignature | Malformed | FutureWindow

record token_config =
  ROTATION_INTERVAL :: nat
  GRACE_WINDOWS :: nat

definition window_of :: "token_config \<Rightarrow> nat \<Rightarrow> nat" where
  "window_of cfg now = now div ROTATION_INTERVAL cfg"

definition generateParticipantToken ::
  "token_config \<Rightarrow> (identity_claim \<Rightarrow> 'sig) \<Rightarrow> string \<Rightarrow> string \<Rightarrow> nat \<Rightarrow> 'sig token" where
  "generateParticipantToken cfg sign n sid now =
     (let c = \<lparr>subject_id = sid, issued_window = window_of cfg now, nonce = n, kind = STUDENT\<rparr>
      in Token c (sign c))"

definition verifyParticipantToken ::
  "token_config \<Rightarrow> (identity_claim \<Rightarrow> 'sig) \<Rightarrow> 'sig token \<Rightarrow> nat \<Rightarrow> token_error + string" where
  "verifyParticipantToken cfg sign t now =
     (case t of
        Garbage _ \<Rightarrow> Inl Malformed
      | Token c sg \<Rightarrow>
          if sg \<noteq> sign c then Inl BadSignature
          else
            let current_window = window_of cfg now in
            if issued_window c > current_window then Inl FutureWindow
            else if issued_window c + GRACE_WINDOWS cfg < current_window then Inl Expired
            else Inr (subject_id c))"

section \<open>Auxiliary definitions for the statements\<close>

text \<open>
  A request body that passes the first two checks of \<^verbatim>\<open>submitFeedback\<close>, and the row the
  controller then builds from it.
\<close>

definition valid_body :: "feedback_body \<Rightarrow> string \<Rightarrow> int \<Rightarrow> bool" where
  "valid_body b sid r = (body_stall_id b = Some sid \<and> sid \<noteq> [] \<and> body_rating b = Some r \<and> 1 \<le> r \<and> r \<le> 5)"

definition new_feedback :: "uuid \<Rightarrow> feedback_body \<Rightarrow> string \<Rightarrow> int \<Rightarrow> feedback" where
  "new_feedback u b sid r = \<lparr>fb_student_id = u, fb_stall_id = sid, fb_rating = r,
      fb_comment = (if falsy_string (body_comment b) then None else body_comment b)\<rparr>"

text \<open>
  The checks of \<^verbatim>\<open>submitFeedback\<close> in the order the claim gives them: presence, range,
  check-in (of a student that exists), quota, stall existence, duplicate. The result is
  the response of the first check that fails, if one does.
\<close>

definition first_failed_check :: "uuid \<Rightarrow> feedback_body \<Rightarrow> store \<Rightarrow> feedback_reply response option" where
  "first_failed_check u b s =
     (if falsy_string (body_stall_id b) \<or> falsy_number (body_rating b) then Some MissingInput
      else if the (body_rating b) < 1 \<or> 5 < the (body_rating b) then Some OutOfRange
      else if Student_findById u s = None then
        Some (ErrorResponse ''Student not found. Please login again.'' 404)
      else if \<not> is_inside_event (the (Student_findById u s)) then Some NotCheckedIn
      else if 200 \<le> Feedback_countByStudent u s then Some QuotaExceeded
      else if Stall_findById (the (body_stall_id b)) s = None then
        Some (ErrorResponse ''Stall not found'' 404)
      else if Feedback_findByStudentAndStall u (the (body_stall_id b)) s \<noteq> None then
        Some AlreadyReviewed
      else None)"

text \<open>A small store for the concrete instances: two students of one school, four stalls.\<close>

definition student_row :: "uuid \<Rightarrow> string \<Rightarrow> uuid \<Rightarrow> bool \<Rightarrow> student" where
  "student_row i n sc inside =
     \<lparr>student_id = i, registration_no = n, student_school_id = sc, is_inside_event = inside,
      has_completed_ranking = False, selected_category = None, student_feedback_count = 0\<rparr>"

definition stall_row :: "uuid \<Rightarrow> string \<Rightarrow> uuid \<Rightarrow> string \<Rightarrow> stall" where
  "stall_row i n sc t =
     \<lparr>stall_id = i, stall_number = n, stall_name = n, stall_school_id = sc, qr_code_token = t,
      total_feedback_count = 0, rank_1_votes = 0, rank_2_votes = 0, rank_3_votes = 0,
      weighted_score = 0\<rparr>"

definition example_store :: store where
  "example_store =
     \<lparr>students = [student_row ''u1'' ''R1'' ''sc1'' True, student_row ''u2'' ''R2'' ''sc1'' False],
      stalls = [stall_row ''A'' ''CS-001'' ''sc1'' ''STALL_CS-001_1_ab'',
                stall_row ''B'' ''CS-002'' ''sc1'' ''STALL_CS-002_1_cd'',
                stall_row ''C'' ''CS-003'' ''sc1'' ''STALL_CS-003_1_ef'',
                stall_row ''D'' ''ME-001'' ''sc2'' ''STALL_ME-001_1_gh''],
      volunteers = [\<lparr>volunteer_id = ''v1'', is_active = True, total_scans_performed = 0\<rparr>],
      feedbacks = [], rankings_table = []\<rparr>"

definition example_db :: db where
  "example_db = \<lparr>data = example_store, saved = None\<rparr>"

definition rate :: "string \<Rightarrow> int \<Rightarrow> feedback_body" where
  "rate sid r = \<lparr>body_stall_id = Some sid, body_rating = Some r, body_comment = None\<rparr>"

text \<open>The same store after student \<open>u1\<close> has given \<open>n\<close> feedbacks to stall \<open>D\<close>.\<close>

definition example_db_with :: "nat \<Rightarrow> db" where
  "example_db_with n =
     \<lparr>data = example_store
        \<lparr>feedbacks := replicate n \<lparr>fb_student_id = ''u1'', fb_stall_id = ''D'', fb_rating = 3,
                                      fb_comment = None\<rparr>\<rparr>,
      saved = None\<rparr>"

text \<open>A ranking entry, and the statements that only write rows.\<close>

definition entry :: "uuid \<Rightarrow> jsval \<Rightarrow> ranking_entry" where
  "entry i r = \<lparr>entry_stall_id = i, entry_rank = r\<rparr>"

definition is_write :: "stmt \<Rightarrow> bool" where
  "is_write q = (q \<noteq> BEGIN \<and> q \<noteq> COMMIT \<and> q \<noteq> ROLLBACK)"

text \<open>
  The session after all the writes of a ranking submission have been committed, and
  the response sent then.
\<close>

definition ranking_applied :: "uuid \<Rightarrow> ranking_entry list \<Rightarrow> db \<Rightarrow> db" where
  "ranking_applied u rankings d =
     \<lparr>data = fold write_stmt (ranking_writes u rankings) (data d), saved = None\<rparr>"

definition ranking_reply :: "uuid \<Rightarrow> db \<Rightarrow> ranking list response" where
  "ranking_reply u d =
     SuccessResponse
       (sort_key (js_toString \<circ> rk_rank)
          (filter (\<lambda>r. rk_student_id r = u) (rankings_table (data d))))
       ''School rankings submitted'' 201"

text \<open>
  A list of three rankings whose ranks are the numbers 1, 2 and 3 in some order, and
  the rows of the stalls it names.
\<close>

definition ranks_1_2_3 :: "ranking_entry list \<Rightarrow> bool" where
  "ranks_1_2_3 rankings =
     (length rankings = 3 \<and> set (map entry_rank rankings) = {JNum 1, JNum 2, JNum 3})"

definition ranked_stalls :: "ranking_entry list \<Rightarrow> store \<Rightarrow> stall list" where
  "ranked_stalls rankings s =
     filter (\<lambda>r. stall_id r \<in> set (map entry_stall_id rankings)) (stalls s)"

text \<open>The request that ranks the stalls \<open>A\<close>, \<open>B\<close> and \<open>C\<close> first, second and third.\<close>

definition rank_ABC :: "ranking_entry list" where
  "rank_ABC = [entry ''A'' (JNum 1), entry ''B'' (JNum 2), entry ''C'' (JNum 3)]"

text \<open>
  A stand-in for \<^verbatim>\<open>QRCodeService.verifyStudentQRToken\<close> in the concrete instances: it
  decodes the one token \<open>QR2\<close> to the registration number \<open>R2\<close>.
\<close>

definition example_verify :: "string \<Rightarrow> string option" where
  "example_verify t = (if t = ''QR2'' then Some ''R2'' else None)"

text \<open>The scanning volunteer is not stopped by the check of \<^verbatim>\<open>is_active\<close>.\<close>

definition not_inactive :: "uuid \<Rightarrow> store \<Rightarrow> bool" where
  "not_inactive v s = (case Volunteer_findById v s of None \<Rightarrow> True | Some vr \<Rightarrow> is_active vr)"

text \<open>
  A configuration and a signing function for the concrete instances: windows of 30
  seconds, one grace window.
\<close>

definition example_config :: token_config where
  "example_config = \<lparr>ROTATION_INTERVAL = 30, GRACE_WINDOWS = 1\<rparr>"

definition example_sign :: "identity_claim \<Rightarrow> nat" where
  "example_sign c = length (subject_id c) + 7 * issued_window c + length (nonce c)"


section \<open>Properties of \<^verbatim>\<open>submitFeedback\<close>\<close>

lemma run_Some_numeral [simp]:
  "run (Some (numeral k)) (q # qs) d = run (Some (pred_numeral k)) qs (exec q d)"
  by (simp add: numeral_eq_Suc)

lemma run_Some_1 [simp]: "run (Some 1) (q # qs) d = run (Some 0) qs (exec q d)"
  by (metis One_nat_def run.simps(3))

lemma submitFeedback_missing:
  "falsy_string (body_stall_id b) \<or> falsy_number (body_rating b) \<Longrightarrow>
   submitFeedback fault u b d = (d, MissingInput)"
  by (auto simp: submitFeedback_def MissingInput_def falsy_string_def falsy_number_def
      split: option.splits)

lemma submitFeedback_range:
  "body_stall_id b = Some sid \<Longrightarrow> sid \<noteq> [] \<Longrightarrow> body_rating b = Some r \<Longrightarrow> r \<noteq> 0 \<Longrightarrow>
   r < 1 \<or> 5 < r \<Longrightarrow> submitFeedback fault u b d = (d, OutOfRange)"
  by (auto simp: submitFeedback_def OutOfRange_def)

lemma submitFeedback_no_student:
  "valid_body b sid r \<Longrightarrow> Student_findById u (data d) = None \<Longrightarrow>
   submitFeedback fault u b d = (d, ErrorResponse ''Student not found. Please login again.'' 404)"
  by (auto simp: submitFeedback_def valid_body_def)

lemma submitFeedback_not_inside:
  "valid_body b sid r \<Longrightarrow> Student_findById u (data d) = Some st \<Longrightarrow> \<not> is_inside_event st \<Longrightarrow>
   submitFeedback fault u b d = (d, NotCheckedIn)"
  by (auto simp: submitFeedback_def valid_body_def NotCheckedIn_def)

lemma submitFeedback_quota:
  "valid_body b sid r \<Longrightarrow> Student_findById u (data d) = Some st \<Longrightarrow> is_inside_event st \<Longrightarrow>
   200 \<le> Feedback_countByStudent u (data d) \<Longrightarrow>
   submitFeedback fault u b d = (d, QuotaExceeded)"
  by (auto simp: submitFeedback_def valid_body_def QuotaExceeded_def)

lemma submitFeedback_no_stall:
  "valid_body b sid r \<Longrightarrow> Student_findById u (data d) = Some st \<Longrightarrow> is_inside_event st \<Longrightarrow>
   Feedback_countByStudent u (data d) < 200 \<Longrightarrow> Stall_findById sid (data d) = None \<Longrightarrow>
   submitFeedback fault u b d = (d, ErrorResponse ''Stall not found'' 404)"
  by (auto simp: submitFeedback_def valid_body_def)

lemma submitFeedback_duplicate:
  "valid_body b sid r \<Longrightarrow> Student_findById u (data d) = Some st \<Longrightarrow> is_inside_event st \<Longrightarrow>
   Feedback_countByStudent u (data d) < 200 \<Longrightarrow> Stall_findById sid (data d) = Some sl \<Longrightarrow>
   Feedback_findByStudentAndStall u sid (data d) \<noteq> None \<Longrightarrow>
   submitFeedback fault u b d = (d, AlreadyReviewed)"
  by (auto simp: submitFeedback_def valid_body_def AlreadyReviewed_def)

lemma submitFeedback_writes:
  "valid_body b sid r \<Longrightarrow> Student_findById u (data d) = Some st \<Longrightarrow> is_inside_event st \<Longrightarrow>
   Feedback_countByStudent u (data d) < 200 \<Longrightarrow> Stall_findById sid (data d) = Some sl \<Longrightarrow>
   Feedback_findByStudentAndStall u sid (data d) = None \<Longrightarrow>
   run fault [Feedback_create (new_feedback u b sid r),
                 Student_incrementFeedbackCount u, Update_stall_feedback_count sid] d = (d', threw) \<Longrightarrow>
   submitFeedback fault u b d =
     (d', if threw then NextError
         else SuccessResponse
                \<lparr>reply_feedback = new_feedback u b sid r,
                 reply_stall_name = stall_name sl,
                 reply_stall_number = stall_number sl,
                 total_feedbacks_given = Feedback_countByStudent u (data d) + 1,
                 remaining_feedbacks = 200 - (int (Feedback_countByStudent u (data d)) + 1)\<rparr>
                ''Feedback submitted successfully'' 201)"
  unfolding submitFeedback_def valid_body_def new_feedback_def
  by (auto simp: Let_def)

lemma run_three_None: "run None [a, b, c] d = (exec c (exec b (exec a d)), False)"
  by simp

lemma submitFeedback_success:
  assumes "valid_body b sid r" "Student_findById u (data d) = Some st" "is_inside_event st"
    "Feedback_countByStudent u (data d) < 200" "Stall_findById sid (data d) = Some sl"
    "Feedback_findByStudentAndStall u sid (data d) = None"
  shows "submitFeedback None u b d =
     (exec (Update_stall_feedback_count sid) (exec (Student_incrementFeedbackCount u)
        (exec (Feedback_create (new_feedback u b sid r)) d)),
      SuccessResponse
                \<lparr>reply_feedback = new_feedback u b sid r,
                 reply_stall_name = stall_name sl,
                 reply_stall_number = stall_number sl,
                 total_feedbacks_given = Feedback_countByStudent u (data d) + 1,
                 remaining_feedbacks = 200 - (int (Feedback_countByStudent u (data d)) + 1)\<rparr>
                ''Feedback submitted successfully'' 201)"
  using submitFeedback_writes [OF assms run_three_None] by simp

lemma not_falsy_body:
  assumes "\<not> (falsy_string (body_stall_id b) \<or> falsy_number (body_rating b))"
  obtains sid r where "body_stall_id b = Some sid" "sid \<noteq> []" "body_rating b = Some r" "r \<noteq> 0"
  using assms by (auto simp: falsy_string_def falsy_number_def)

lemma submitFeedback_first_failed:
  assumes h: "first_failed_check u b (data d) = Some e"
  shows "submitFeedback fault u b d = (d, e)"
proof (cases "falsy_string (body_stall_id b) \<or> falsy_number (body_rating b)")
  case True
  with h have "e = MissingInput" by (simp add: first_failed_check_def)
  with True show ?thesis by (simp add: submitFeedback_missing)
next
  case False
  then obtain sid r where b: "body_stall_id b = Some sid" "sid \<noteq> []" "body_rating b = Some r" "r \<noteq> 0"
    by (rule not_falsy_body)
  show ?thesis
  proof (cases "r < 1 \<or> 5 < r")
    case True
    with h False b have "e = OutOfRange" by (simp add: first_failed_check_def)
    with True b show ?thesis by (simp add: submitFeedback_range)
  next
    case inr: False
    with b have vb: "valid_body b sid r" by (simp add: valid_body_def)
    show ?thesis
    proof (cases "Student_findById u (data d)")
      case None
      with h False b inr have "e = ErrorResponse ''Student not found. Please login again.'' 404"
        by (simp add: first_failed_check_def)
      with vb None show ?thesis by (simp add: submitFeedback_no_student)
    next
      case (Some st)
      show ?thesis
      proof (cases "is_inside_event st")
        case False
        with h \<open>\<not> (falsy_string (body_stall_id b) \<or> falsy_number (body_rating b))\<close> b inr Some
        have "e = NotCheckedIn" by (simp add: first_failed_check_def)
        with vb Some False show ?thesis by (simp add: submitFeedback_not_inside)
      next
        case inside: True
        show ?thesis
        proof (cases "200 \<le> Feedback_countByStudent u (data d)")
          case True
          with h False b inr Some inside have "e = QuotaExceeded"
            by (simp add: first_failed_check_def)
          with vb Some inside True show ?thesis by (simp add: submitFeedback_quota)
        next
          case under: False
          then have lt: "Feedback_countByStudent u (data d) < 200" by simp
          show ?thesis
          proof (cases "Stall_findById sid (data d)")
            case None
            with h False b inr Some inside under have "e = ErrorResponse ''Stall not found'' 404"
              by (simp add: first_failed_check_def)
            with vb Some inside lt None show ?thesis by (simp add: submitFeedback_no_stall)
          next
            case sl: (Some sl)
            with h False b inr Some inside under
            have "Feedback_findByStudentAndStall u sid (data d) \<noteq> None \<and> e = AlreadyReviewed"
              by (simp add: first_failed_check_def split: if_splits)
            with vb Some inside lt sl show ?thesis
              using submitFeedback_duplicate by blast
          qed
        qed
      qed
    qed
  qed
qed

lemma submitFeedback_all_passed:
  assumes h: "first_failed_check u b (data d) = None"
  shows "\<exists>reply. submitFeedback None u b d =
     (exec (Update_stall_feedback_count (the (body_stall_id b)))
        (exec (Student_incrementFeedbackCount u)
           (exec (Feedback_create (new_feedback u b (the (body_stall_id b)) (the (body_rating b)))) d)),
      SuccessResponse reply ''Feedback submitted successfully'' 201)"
proof -
  from h have nf: "\<not> (falsy_string (body_stall_id b) \<or> falsy_number (body_rating b))"
    by (auto simp: first_failed_check_def split: if_splits)
  then obtain sid r where b: "body_stall_id b = Some sid" "sid \<noteq> []" "body_rating b = Some r" "r \<noteq> 0"
    by (rule not_falsy_body)
  from h nf b have inr: "1 \<le> r \<and> r \<le> 5"
    by (auto simp: first_failed_check_def split: if_splits)
  with b have vb: "valid_body b sid r" by (simp add: valid_body_def)
  from h nf b inr obtain st where st: "Student_findById u (data d) = Some st" "is_inside_event st"
    by (auto simp: first_failed_check_def split: if_splits)
  from h nf b inr st have lt: "Feedback_countByStudent u (data d) < 200"
    by (auto simp: first_failed_check_def split: if_splits)
  from h nf b inr st lt obtain sl where sl: "Stall_findById sid (data d) = Some sl"
    by (auto simp: first_failed_check_def split: if_splits)
  from h nf b inr st lt sl have nd: "Feedback_findByStudentAndStall u sid (data d) = None"
    by (auto simp: first_failed_check_def split: if_splits)
  show ?thesis
    using submitFeedback_success [OF vb st lt sl nd] b by simp
qed

lemma submitFeedback_fault_response:
  assumes h: "first_failed_check u b (data d) = None"
  shows "snd (submitFeedback fault u b d) = NextError \<or> is_success (snd (submitFeedback fault u b d))"
proof -
  from h have nf: "\<not> (falsy_string (body_stall_id b) \<or> falsy_number (body_rating b))"
    by (auto simp: first_failed_check_def split: if_splits)
  then obtain sid r where b: "body_stall_id b = Some sid" "sid \<noteq> []" "body_rating b = Some r" "r \<noteq> 0"
    by (rule not_falsy_body)
  from h nf b have inr: "1 \<le> r \<and> r \<le> 5"
    by (auto simp: first_failed_check_def split: if_splits)
  with b have vb: "valid_body b sid r" by (simp add: valid_body_def)
  from h nf b inr obtain st where st: "Student_findById u (data d) = Some st" "is_inside_event st"
    by (auto simp: first_failed_check_def split: if_splits)
  from h nf b inr st have lt: "Feedback_countByStudent u (data d) < 200"
    by (auto simp: first_failed_check_def split: if_splits)
  from h nf b inr st lt obtain sl where sl: "Stall_findById sid (data d) = Some sl"
    by (auto simp: first_failed_check_def split: if_splits)
  from h nf b inr st lt sl have nd: "Feedback_findByStudentAndStall u sid (data d) = None"
    by (auto simp: first_failed_check_def split: if_splits)
  obtain d' threw where r: "run fault [Feedback_create (new_feedback u b sid r),
       Student_incrementFeedbackCount u, Update_stall_feedback_count sid] d = (d', threw)"
    by (cases "run fault [Feedback_create (new_feedback u b sid r),
       Student_incrementFeedbackCount u, Update_stall_feedback_count sid] d") blast
  show ?thesis
    using submitFeedback_writes [OF vb st lt sl nd r] by (simp add: is_success_def)
qed

lemma OutOfRange_only_range:
  assumes "first_failed_check u b s = Some OutOfRange"
  shows "\<not> falsy_string (body_stall_id b) \<and>
         (\<exists>r. body_rating b = Some r \<and> r \<noteq> 0 \<and> (r < 1 \<or> 5 < r))"
  using assms
  by (auto simp: first_failed_check_def OutOfRange_def MissingInput_def NotCheckedIn_def
      QuotaExceeded_def AlreadyReviewed_def falsy_number_def split: if_splits)

text \<open>
  Claim C10. \<^verbatim>\<open>submitFeedback\<close> treats a falsy rating as missing input: whenever the
  stall id or the rating is absent, empty or 0, the response is the ``Stall ID and
  rating are required'' error, whatever the store, the student and the other fields
  are. The range rejection is sent only for a present, non-zero rating outside 1..5.
  The checks come in the order presence, range, check-in, quota, stall existence,
  duplicate: the response is that of the first one that fails, and the request
  succeeds when none does.
\<close>

theorem submitFeedback_missing_input_first:
  "(falsy_string (body_stall_id b) \<or> falsy_number (body_rating b) \<longrightarrow>
      submitFeedback fault u b d = (d, MissingInput)) \<and>
   (snd (submitFeedback fault u b d) = OutOfRange \<longrightarrow>
      \<not> falsy_string (body_stall_id b) \<and>
      (\<exists>r. body_rating b = Some r \<and> r \<noteq> 0 \<and> (r < 1 \<or> 5 < r))) \<and>
   (case first_failed_check u b (data d) of
      Some e \<Rightarrow> submitFeedback fault u b d = (d, e)
    | None \<Rightarrow> is_success (snd (submitFeedback None u b d)))"
proof -
  have first: "falsy_string (body_stall_id b) \<or> falsy_number (body_rating b) \<longrightarrow>
      submitFeedback fault u b d = (d, MissingInput)"
    by (simp add: submitFeedback_missing)
  have second: "\<not> falsy_string (body_stall_id b) \<and>
      (\<exists>r. body_rating b = Some r \<and> r \<noteq> 0 \<and> (r < 1 \<or> 5 < r))"
    if o: "snd (submitFeedback fault u b d) = OutOfRange"
  proof (cases "first_failed_check u b (data d)")
    case None
    from submitFeedback_fault_response [OF None, of fault] o show ?thesis
      by (simp add: OutOfRange_def is_success_def)
  next
    case (Some e)
    from submitFeedback_first_failed [OF Some, of fault] o have "e = OutOfRange" by simp
    with Some show ?thesis using OutOfRange_only_range by blast
  qed
  have third: "case first_failed_check u b (data d) of
      Some e \<Rightarrow> submitFeedback fault u b d = (d, e)
    | None \<Rightarrow> is_success (snd (submitFeedback None u b d))"
  proof (cases "first_failed_check u b (data d)")
    case None
    from submitFeedback_all_passed [OF None] show ?thesis
      using None by (auto simp: is_success_def)
  next
    case (Some e)
    then show ?thesis by (simp add: submitFeedback_first_failed)
  qed
  from first second third show ?thesis by blast
qed

theorem submitFeedback_missing_input_first_witness:
  "submitFeedback (Some 0) ''u2'' (rate ''nowhere'' 0) example_db = (example_db, MissingInput) \<and>
   submitFeedback None ''u1''
     \<lparr>body_stall_id = Some ''A'', body_rating = None, body_comment = Some ''good''\<rparr> example_db =
     (example_db, MissingInput) \<and>
   submitFeedback None ''u1'' (rate ''A'' 9) example_db = (example_db, OutOfRange) \<and>
   is_success (snd (submitFeedback None ''u1'' (rate ''A'' 5) example_db))"
proof -
  have c: "first_failed_check ''u1'' (rate ''A'' 9) (data example_db) = Some OutOfRange"
    by (simp add: first_failed_check_def rate_def falsy_string_def falsy_number_def)
  have n: "first_failed_check ''u1'' (rate ''A'' 5) (data example_db) = None"
    by (simp add: first_failed_check_def rate_def falsy_string_def falsy_number_def
        example_db_def example_store_def student_row_def stall_row_def Student_findById_def
        Stall_findById_def Feedback_countByStudent_def Feedback_findByStudentAndStall_def)
  show ?thesis
    using submitFeedback_missing_input_first [of "rate ''nowhere'' 0" "Some 0" "''u2''" example_db]
      submitFeedback_missing_input_first
        [of "\<lparr>body_stall_id = Some ''A'', body_rating = None, body_comment = Some ''good''\<rparr>"
            None "''u1''" example_db]
      submitFeedback_missing_input_first [of "rate ''A'' 9" None "''u1''" example_db]
      submitFeedback_missing_input_first [of "rate ''A'' 5" None "''u1''" example_db]
    by (simp add: c n) (simp add: rate_def falsy_number_def)
qed

lemma find_update_where_same:
  assumes "\<And>r. key (f r) = key r"
  shows "find (\<lambda>r. key r = k) (update_where (\<lambda>r. key r = k) f rows) =
         map_option f (find (\<lambda>r. key r = k) rows)"
  using assms by (induction rows) (auto simp: update_where_def)

lemma feedback_written:
  assumes "d' = exec (Update_stall_feedback_count sid)
                  (exec (Student_incrementFeedbackCount u) (exec (Feedback_create fb) d))"
  shows "feedbacks (data d') = feedbacks (data d) @ [fb]"
    and "Student_findById u (data d') =
           map_option (\<lambda>r. r\<lparr>student_feedback_count := student_feedback_count r + 1\<rparr>)
             (Student_findById u (data d))"
    and "Stall_findById sid (data d') =
           map_option (\<lambda>r. r\<lparr>total_feedback_count := total_feedback_count r + 1\<rparr>)
             (Stall_findById sid (data d))"
    and "saved d' = saved d"
proof -
  show "feedbacks (data d') = feedbacks (data d) @ [fb]"
    using assms by (simp add: exec_def write_stmt_def)
  have "Student_findById u (data d') =
        find (\<lambda>r. student_id r = u)
          (update_where (\<lambda>r. student_id r = u)
             (\<lambda>r. r\<lparr>student_feedback_count := student_feedback_count r + 1\<rparr>) (students (data d)))"
    using assms by (simp add: exec_def write_stmt_def Student_findById_def)
  also have "\<dots> = map_option (\<lambda>r. r\<lparr>student_feedback_count := student_feedback_count r + 1\<rparr>)
               (find (\<lambda>r. student_id r = u) (students (data d)))"
    by (rule find_update_where_same) simp
  finally show "Student_findById u (data d') =
           map_option (\<lambda>r. r\<lparr>student_feedback_count := student_feedback_count r + 1\<rparr>)
             (Student_findById u (data d))"
    by (simp add: Student_findById_def)
  have "Stall_findById sid (data d') =
        find (\<lambda>r. stall_id r = sid)
          (update_where (\<lambda>r. stall_id r = sid)
             (\<lambda>r. r\<lparr>total_feedback_count := total_feedback_count r + 1\<rparr>) (stalls (data d)))"
    using assms by (simp add: exec_def write_stmt_def Stall_findById_def)
  also have "\<dots> = map_option (\<lambda>r. r\<lparr>total_feedback_count := total_feedback_count r + 1\<rparr>)
               (find (\<lambda>r. stall_id r = sid) (stalls (data d)))"
    by (rule find_update_where_same) simp
  finally show "Stall_findById sid (data d') =
           map_option (\<lambda>r. r\<lparr>total_feedback_count := total_feedback_count r + 1\<rparr>)
             (Stall_findById sid (data d))"
    by (simp add: Stall_findById_def)
  show "saved d' = saved d"
    using assms by (simp add: exec_def)
qed

lemma find_append_last: "p x \<Longrightarrow> find p (xs @ [x]) \<noteq> None"
  by (induction xs) auto

lemma submitFeedback_second_call:
  assumes vb: "valid_body b sid r"
    and st: "Student_findById u (data d) = Some st" "is_inside_event st"
    and lt: "Feedback_countByStudent u (data d) < 200"
    and sl: "Stall_findById sid (data d) = Some sl"
    and nd: "Feedback_findByStudentAndStall u sid (data d) = None"
  shows "submitFeedback fault u b (fst (submitFeedback None u b d)) =
           (fst (submitFeedback None u b d),
            if Feedback_countByStudent u (data d) + 1 < 200 then AlreadyReviewed
            else QuotaExceeded)"
proof -
  define fb where "fb = new_feedback u b sid r"
  define d' where "d' = exec (Update_stall_feedback_count sid)
                  (exec (Student_incrementFeedbackCount u) (exec (Feedback_create fb) d))"
  have first: "fst (submitFeedback None u b d) = d'"
    using submitFeedback_success [OF vb st lt sl nd] by (simp add: d'_def fb_def)
  have fbs: "feedbacks (data d') = feedbacks (data d) @ [fb]"
    using d'_def by (rule feedback_written(1))
  have st': "Student_findById u (data d') =
        Some (st\<lparr>student_feedback_count := student_feedback_count st + 1\<rparr>)"
    using feedback_written(2) [OF d'_def] st by simp
  have sl': "Stall_findById sid (data d') =
        Some (sl\<lparr>total_feedback_count := total_feedback_count sl + 1\<rparr>)"
    using feedback_written(3) [OF d'_def] sl by simp
  have cnt: "Feedback_countByStudent u (data d') = Feedback_countByStudent u (data d) + 1"
    using fbs by (simp add: Feedback_countByStudent_def fb_def new_feedback_def)
  have dup: "Feedback_findByStudentAndStall u sid (data d') \<noteq> None"
    unfolding Feedback_findByStudentAndStall_def fbs
    by (rule find_append_last) (simp add: fb_def new_feedback_def)
  show ?thesis
  proof (cases "Feedback_countByStudent u (data d) + 1 < 200")
    case True
    then have "Feedback_countByStudent u (data d') < 200" by (simp add: cnt)
    from submitFeedback_duplicate [OF vb st' _ this sl' dup] st(2) True first
    show ?thesis by simp
  next
    case False
    then have "200 \<le> Feedback_countByStudent u (data d')" by (simp add: cnt)
    from submitFeedback_quota [OF vb st' _ this] st(2) False first
    show ?thesis by simp
  qed
qed

text \<open>
  Claim C6, as amended. With a non-empty stall id and a rating present in the body,
  \<^verbatim>\<open>submitFeedback\<close> answers \<open>OutOfRange\<close> when the rating is not 0 and lies outside
  1..5 (a rating of 0 is answered as missing input). With a rating in 1..5 and the
  student found, it answers \<open>NotCheckedIn\<close> when \<^verbatim>\<open>is_inside_event\<close> is false,
  \<open>QuotaExceeded\<close> when the student is checked in and already has 200 feedback rows,
  and \<open>AlreadyReviewed\<close> when the student is checked in, under the quota, the stall
  exists and a feedback row for the pair exists. Otherwise, when the stall exists, it
  inserts the feedback row and returns it with status 201, and a second call for the
  same pair fails: with \<open>AlreadyReviewed\<close>, or with \<open>QuotaExceeded\<close> when the first call
  wrote the student's 200th row.
\<close>

theorem submitFeedback_outcomes:
  assumes "body_stall_id b = Some sid" "sid \<noteq> []" "body_rating b = Some r"
  shows
    "(r \<noteq> 0 \<and> (r < 1 \<or> 5 < r) \<longrightarrow> submitFeedback fault u b d = (d, OutOfRange)) \<and>
     (1 \<le> r \<and> r \<le> 5 \<and> Student_findById u (data d) = Some st \<longrightarrow>
        (\<not> is_inside_event st \<longrightarrow> submitFeedback fault u b d = (d, NotCheckedIn)) \<and>
        (is_inside_event st \<and> 200 \<le> Feedback_countByStudent u (data d) \<longrightarrow>
           submitFeedback fault u b d = (d, QuotaExceeded)) \<and>
        (is_inside_event st \<and> Feedback_countByStudent u (data d) < 200 \<and>
         Stall_findById sid (data d) = Some sl \<longrightarrow>
           (Feedback_findByStudentAndStall u sid (data d) \<noteq> None \<longrightarrow>
              submitFeedback fault u b d = (d, AlreadyReviewed)) \<and>
           (Feedback_findByStudentAndStall u sid (data d) = None \<longrightarrow>
              (\<exists>reply. snd (submitFeedback None u b d) =
                         SuccessResponse reply ''Feedback submitted successfully'' 201 \<and>
                       reply_feedback reply = new_feedback u b sid r) \<and>
              feedbacks (data (fst (submitFeedback None u b d))) =
                feedbacks (data d) @ [new_feedback u b sid r] \<and>
              snd (submitFeedback fault u b (fst (submitFeedback None u b d))) =
                (if Feedback_countByStudent u (data d) + 1 < 200 then AlreadyReviewed
                 else QuotaExceeded))))"
proof -
  have range: "submitFeedback fault u b d = (d, OutOfRange)" if "r \<noteq> 0" "r < 1 \<or> 5 < r"
    using assms that by (simp add: submitFeedback_range)
  have rest: ?thesis if inr: "1 \<le> r" "r \<le> 5"
  proof -
    from assms inr have vb: "valid_body b sid r" by (simp add: valid_body_def)
    have success:
      "(\<exists>reply. snd (submitFeedback None u b d) =
                         SuccessResponse reply ''Feedback submitted successfully'' 201 \<and>
                       reply_feedback reply = new_feedback u b sid r) \<and>
       feedbacks (data (fst (submitFeedback None u b d))) =
                feedbacks (data d) @ [new_feedback u b sid r] \<and>
       snd (submitFeedback fault u b (fst (submitFeedback None u b d))) =
                (if Feedback_countByStudent u (data d) + 1 < 200 then AlreadyReviewed
                 else QuotaExceeded)"
      if st: "Student_findById u (data d) = Some st" "is_inside_event st"
        and lt: "Feedback_countByStudent u (data d) < 200"
        and sl: "Stall_findById sid (data d) = Some sl"
        and nd: "Feedback_findByStudentAndStall u sid (data d) = None"
      using submitFeedback_success [OF vb st lt sl nd]
        submitFeedback_second_call [OF vb st lt sl nd, of fault]
        feedback_written(1) [OF refl, of sid u "new_feedback u b sid r" d]
      by simp
    show ?thesis
      using inr vb success submitFeedback_not_inside [OF vb, of u d st fault]
        submitFeedback_quota [OF vb, of u d st fault]
        submitFeedback_duplicate [OF vb, of u d st sl fault]
      by auto
  qed
  show ?thesis
  proof (cases "1 \<le> r \<and> r \<le> 5")
    case True
    then show ?thesis using rest by blast
  next
    case False
    then show ?thesis using range by auto
  qed
qed

lemma example_db_with_facts:
  "Student_findById ''u1'' (data (example_db_with n)) = Some (student_row ''u1'' ''R1'' ''sc1'' True)"
  "Stall_findById ''A'' (data (example_db_with n)) =
     Some (stall_row ''A'' ''CS-001'' ''sc1'' ''STALL_CS-001_1_ab'')"
  "Stall_findById ''D'' (data (example_db_with n)) =
     Some (stall_row ''D'' ''ME-001'' ''sc2'' ''STALL_ME-001_1_gh'')"
  "Feedback_countByStudent ''u1'' (data (example_db_with n)) = n"
  "Feedback_findByStudentAndStall ''u1'' ''A'' (data (example_db_with n)) = None"
  "Feedback_findByStudentAndStall ''u1'' ''D'' (data (example_db_with (Suc n))) \<noteq> None"
  by (simp_all add: example_db_with_def example_store_def student_row_def stall_row_def
      Student_findById_def Stall_findById_def Feedback_countByStudent_def
      Feedback_findByStudentAndStall_def filter_replicate find_None_iff)

theorem submitFeedback_outcomes_witness:
  "submitFeedback None ''u1'' (rate ''A'' 6) example_db = (example_db, OutOfRange) \<and>
   submitFeedback None ''u2'' (rate ''A'' 4) example_db = (example_db, NotCheckedIn) \<and>
   submitFeedback None ''u1'' (rate ''A'' 4) (example_db_with 200) =
     (example_db_with 200, QuotaExceeded) \<and>
   submitFeedback None ''u1'' (rate ''D'' 4) (example_db_with 1) =
     (example_db_with 1, AlreadyReviewed) \<and>
   (\<exists>reply. snd (submitFeedback None ''u1'' (rate ''A'' 4) example_db) =
              SuccessResponse reply ''Feedback submitted successfully'' 201 \<and>
            reply_feedback reply = new_feedback ''u1'' (rate ''A'' 4) ''A'' 4) \<and>
   snd (submitFeedback None ''u1'' (rate ''A'' 4)
          (fst (submitFeedback None ''u1'' (rate ''A'' 4) example_db))) = AlreadyReviewed \<and>
   snd (submitFeedback None ''u1'' (rate ''A'' 4)
          (fst (submitFeedback None ''u1'' (rate ''A'' 4) (example_db_with 199)))) = QuotaExceeded"
proof -
  have b: "body_stall_id (rate i k) = Some i" for i k
    by (simp add: rate_def)
  have ne: "''A'' \<noteq> []" "''D'' \<noteq> []" by simp_all
  have r: "body_rating (rate i k) = Some k" for i k
    by (simp add: rate_def)
  have u1: "Student_findById ''u1'' (data example_db) = Some (student_row ''u1'' ''R1'' ''sc1'' True)"
    and u2: "Student_findById ''u2'' (data example_db) = Some (student_row ''u2'' ''R2'' ''sc1'' False)"
    and a: "Stall_findById ''A'' (data example_db) =
              Some (stall_row ''A'' ''CS-001'' ''sc1'' ''STALL_CS-001_1_ab'')"
    and c: "Feedback_countByStudent ''u1'' (data example_db) = 0"
    and n: "Feedback_findByStudentAndStall ''u1'' ''A'' (data example_db) = None"
    by (simp_all add: example_db_def example_store_def student_row_def stall_row_def
        Student_findById_def Stall_findById_def Feedback_countByStudent_def
        Feedback_findByStudentAndStall_def)
  have i: "is_inside_event (student_row ''u1'' ''R1'' ''sc1'' True)"
    "\<not> is_inside_event (student_row ''u2'' ''R2'' ''sc1'' False)"
    by (simp_all add: student_row_def)
  have one: "1 = Suc 0" by simp
  show ?thesis
    using submitFeedback_outcomes [OF b ne(1) r, where r = 6 and fault = None and u = "''u1''"
        and d = example_db]
      submitFeedback_outcomes [OF b ne(1) r, where r = 4 and fault = None and u = "''u2''"
        and d = example_db and st = "student_row ''u2'' ''R2'' ''sc1'' False"]
      submitFeedback_outcomes [OF b ne(1) r, where r = 4 and fault = None and u = "''u1''"
        and d = example_db and st = "student_row ''u1'' ''R1'' ''sc1'' True"
        and sl = "stall_row ''A'' ''CS-001'' ''sc1'' ''STALL_CS-001_1_ab''"]
      submitFeedback_outcomes [OF b ne(1) r, where r = 4 and fault = None and u = "''u1''"
        and d = "example_db_with 200" and st = "student_row ''u1'' ''R1'' ''sc1'' True"]
      submitFeedback_outcomes [OF b ne(2) r, where r = 4 and fault = None and u = "''u1''"
        and d = "example_db_with (Suc 0)" and st = "student_row ''u1'' ''R1'' ''sc1'' True"
        and sl = "stall_row ''D'' ''ME-001'' ''sc2'' ''STALL_ME-001_1_gh''"]
      submitFeedback_outcomes [OF b ne(1) r, where r = 4 and fault = None and u = "''u1''"
        and d = "example_db_with 199" and st = "student_row ''u1'' ''R1'' ''sc1'' True"
        and sl = "stall_row ''A'' ''CS-001'' ''sc1'' ''STALL_CS-001_1_ab''"]
    by (simp add: u1 u2 a c n i example_db_with_facts one)
qed

text \<open>
  The claim as stated fails for a rating of 0: it is not in 1..5, and the response is
  the missing-input error, not \<open>OutOfRange\<close>.
\<close>

theorem submitFeedback_rating_zero_counterexample:
  "\<not> (1 \<le> (0::int) \<and> (0::int) \<le> 5) \<and>
   snd (submitFeedback None ''u1'' (rate ''A'' 0) example_db) = MissingInput \<and>
   snd (submitFeedback None ''u1'' (rate ''A'' 0) example_db) \<noteq> OutOfRange"
  by (simp add: submitFeedback_def rate_def MissingInput_def OutOfRange_def)

text \<open>
  Claim C7 on the code: the insert and the two counter updates are three statements
  with no transaction around them. When the second one throws, the feedback row is
  already stored and visible, both counters are unchanged, and nothing undoes the
  insert.
\<close>

theorem submitFeedback_partial_write:
  "submitFeedback (Some 1) ''u1'' (rate ''A'' 4) example_db =
     (\<lparr>data = example_store
          \<lparr>feedbacks := [\<lparr>fb_student_id = ''u1'', fb_stall_id = ''A'', fb_rating = 4,
                           fb_comment = None\<rparr>]\<rparr>,
       saved = None\<rparr>, NextError) \<and>
   committed (fst (submitFeedback (Some 1) ''u1'' (rate ''A'' 4) example_db)) \<noteq> example_store \<and>
   map student_feedback_count
     (students (committed (fst (submitFeedback (Some 1) ''u1'' (rate ''A'' 4) example_db)))) = [0, 0] \<and>
   map total_feedback_count
     (stalls (committed (fst (submitFeedback (Some 1) ''u1'' (rate ''A'' 4) example_db)))) = [0, 0, 0, 0]"
  by (simp add: submitFeedback_def rate_def example_db_def example_store_def student_row_def
      stall_row_def Student_findById_def Stall_findById_def Feedback_countByStudent_def
      Feedback_findByStudentAndStall_def falsy_string_def exec_def write_stmt_def
      update_where_def committed_def)

section \<open>Properties of \<^verbatim>\<open>submitSchoolRanking\<close>\<close>

lemma exec_write: "is_write q \<Longrightarrow> exec q d = d\<lparr>data := write_stmt q (data d)\<rparr>"
  by (cases q) (simp_all add: exec_def is_write_def)

lemma ranking_writes_are_writes: "list_all is_write (ranking_writes u rankings)"
  by (simp add: ranking_writes_def is_write_def list_all_iff)

lemma run_writes:
  "list_all is_write qs \<Longrightarrow> saved (fst (run f qs d)) = saved d"
proof (induction qs arbitrary: f d)
  case Nil
  then show ?case by simp
next
  case (Cons q qs)
  show ?case
  proof (cases f)
    case None
    with Cons show ?thesis by (simp add: exec_write)
  next
    case (Some k)
    with Cons show ?thesis by (cases k) (simp_all add: exec_write)
  qed
qed

lemma trace_writes:
  "list_all is_write qs \<Longrightarrow> x \<in> set (trace f qs d) \<Longrightarrow> saved x = saved d"
proof (induction qs arbitrary: f d)
  case Nil
  then show ?case by simp
next
  case (Cons q qs)
  show ?case
  proof (cases f)
    case None
    with Cons show ?thesis by (auto simp: exec_write)
  next
    case (Some k)
    with Cons show ?thesis by (cases k) (auto simp: exec_write)
  qed
qed

lemma run_None_writes:
  "list_all is_write qs \<Longrightarrow>
   run None qs d = (d\<lparr>data := fold write_stmt qs (data d)\<rparr>, False)"
  by (induction qs arbitrary: d) (simp_all add: exec_write)

lemma run_threw_iff: "snd (run f qs d) \<longleftrightarrow> (\<exists>k. f = Some k \<and> k < length qs)"
proof (induction qs arbitrary: f d)
  case Nil
  then show ?case by simp
next
  case (Cons q qs)
  show ?case
  proof (cases f)
    case None
    with Cons show ?thesis by simp
  next
    case (Some k)
    with Cons show ?thesis by (cases k) simp_all
  qed
qed

lemma run_append_early:
  "k < length xs \<Longrightarrow> run (Some k) (xs @ ys) d = run (Some k) xs d"
proof (induction xs arbitrary: k d)
  case Nil
  then show ?case by simp
next
  case (Cons q qs)
  then show ?case by (cases k) simp_all
qed

lemma run_append_late:
  "length xs \<le> k \<Longrightarrow>
   run (Some k) (xs @ ys) d = run (Some (k - length xs)) ys (fst (run None xs d))"
proof (induction xs arbitrary: k d)
  case Nil
  then show ?case by simp
next
  case (Cons q qs)
  then show ?case by (cases k) simp_all
qed

lemma run_append_None: "run None (xs @ ys) d = run None ys (fst (run None xs d))"
  by (induction xs arbitrary: d) simp_all

lemma trace_append:
  "x \<in> set (trace f (xs @ ys) d) \<Longrightarrow>
   x \<in> set (trace f xs d) \<or>
   (\<exists>g. x \<in> set (trace g ys (fst (run None xs d))))"
proof (induction xs arbitrary: f d)
  case Nil
  then show ?case by auto
next
  case (Cons q qs)
  show ?case
  proof (cases f)
    case None
    with Cons.prems have "x = d \<or> x \<in> set (trace None (qs @ ys) (exec q d))" by simp
    then show ?thesis using Cons.IH [of None "exec q d"] None by auto
  next
    case (Some k)
    show ?thesis
    proof (cases k)
      case 0
      with Some Cons.prems show ?thesis by simp
    next
      case (Suc j)
      with Some Cons.prems have "x = d \<or> x \<in> set (trace (Some j) (qs @ ys) (exec q d))" by simp
      then show ?thesis using Cons.IH [of "Some j" "exec q d"] Some Suc by auto
    qed
  qed
qed

lemma length_ranking_writes: "length (ranking_writes u rankings) = length rankings + 2"
  by (simp add: ranking_writes_def)

lemma run_ranking_writes:
  assumes "saved d = None"
  shows "run None (ranking_writes u rankings) (exec BEGIN d) =
           ((ranking_applied u rankings d)\<lparr>saved := Some (data d)\<rparr>, False)"
  using assms
  by (cases d)
     (simp add: run_None_writes [OF ranking_writes_are_writes] exec_def ranking_applied_def)

lemma submitSchoolRanking_tx_None:
  assumes "saved d = None"
  shows "submitSchoolRanking_tx None u rankings d =
           (ranking_applied u rankings d, ranking_reply u (ranking_applied u rankings d))"
proof -
  have "run None (ranking_statements u rankings) d =
        run None [COMMIT, Select_ranked u]
          ((ranking_applied u rankings d)\<lparr>saved := Some (data d)\<rparr>)"
    unfolding ranking_statements_def
    by (simp add: run_append_None run_ranking_writes [OF assms])
  also have "\<dots> = (ranking_applied u rankings d, False)"
    by (simp add: exec_def write_stmt_def ranking_applied_def)
  finally show ?thesis
    by (simp add: submitSchoolRanking_tx_def ranking_reply_def)
qed

lemma submitSchoolRanking_tx_rollback:
  assumes "saved d = None" "k \<le> length rankings + 3"
  shows "submitSchoolRanking_tx (Some k) u rankings d = (d, NextError)"
proof (cases k)
  case 0
  with assms show ?thesis
    by (simp add: submitSchoolRanking_tx_def ranking_statements_def exec_def)
next
  case (Suc j)
  let ?W = "ranking_writes u rankings"
  let ?d1 = "exec BEGIN d"
  have s1: "saved ?d1 = Some (data d)" using assms by (simp add: exec_def)
  have r0: "run (Some k) (ranking_statements u rankings) d =
            run (Some j) (?W @ [COMMIT, Select_ranked u]) ?d1"
    using Suc by (simp add: ranking_statements_def)
  have "\<exists>d2. run (Some j) (?W @ [COMMIT, Select_ranked u]) ?d1 = (d2, True) \<and>
              saved d2 = Some (data d)"
  proof (cases "j < length ?W")
    case True
    then have e: "run (Some j) (?W @ [COMMIT, Select_ranked u]) ?d1 = run (Some j) ?W ?d1"
      by (rule run_append_early)
    have "snd (run (Some j) ?W ?d1)" using True by (simp add: run_threw_iff)
    moreover have "saved (fst (run (Some j) ?W ?d1)) = Some (data d)"
      using run_writes [OF ranking_writes_are_writes] s1 by simp
    ultimately show ?thesis using e by (cases "run (Some j) ?W ?d1") auto
  next
    case False
    with assms Suc have j: "j = length ?W" by (simp add: length_ranking_writes)
    then have "run (Some j) (?W @ [COMMIT, Select_ranked u]) ?d1 =
               run (Some 0) [COMMIT, Select_ranked u] (fst (run None ?W ?d1))"
      by (simp add: run_append_late)
    then show ?thesis
      using run_writes [OF ranking_writes_are_writes [of u rankings], of None ?d1] s1 by simp
  qed
  then obtain d2 where d2: "run (Some k) (ranking_statements u rankings) d = (d2, True)"
    "saved d2 = Some (data d)"
    using r0 by auto
  have "exec ROLLBACK d2 = d" using d2(2) assms(1) by (cases d) (simp add: exec_def)
  with d2 show ?thesis by (simp add: submitSchoolRanking_tx_def)
qed

lemma submitSchoolRanking_tx_late:
  assumes "saved d = None" "length rankings + 3 < k"
  shows "submitSchoolRanking_tx (Some k) u rankings d =
           (ranking_applied u rankings d,
            if k = length rankings + 4 then NextError
            else ranking_reply u (ranking_applied u rankings d))"
proof -
  let ?W = "ranking_writes u rankings"
  obtain j where k: "k = Suc j" "length ?W \<le> j" "j - length ?W = k - (length rankings + 3)"
    using assms(2) by (cases k) (auto simp: length_ranking_writes)
  have "run (Some k) (ranking_statements u rankings) d =
        run (Some (j - length ?W)) [COMMIT, Select_ranked u]
          ((ranking_applied u rankings d)\<lparr>saved := Some (data d)\<rparr>)"
    using k by (simp add: ranking_statements_def run_append_late run_ranking_writes [OF assms(1)])
  also have "\<dots> = (ranking_applied u rankings d, j - length ?W = 1)"
  proof (cases "j - length ?W")
    case 0
    with k assms(2) show ?thesis by simp
  next
    case (Suc m)
    then show ?thesis
      by (cases m) (simp_all add: exec_def write_stmt_def ranking_applied_def)
  qed
  finally have "run (Some k) (ranking_statements u rankings) d =
                (ranking_applied u rankings d, k = length rankings + 4)"
    using k assms(2) by (simp add: length_ranking_writes) arith
  then show ?thesis
    by (simp add: submitSchoolRanking_tx_def ranking_reply_def exec_def ranking_applied_def)
qed
lemma perm3:
  assumes "set [a, b, c] = {x, y, z}" "x \<noteq> y" "y \<noteq> z" "x \<noteq> z"
  shows "[a, b, c] \<in> {[x, y, z], [x, z, y], [y, x, z], [y, z, x], [z, x, y], [z, y, x]}"
proof -
  from assms(1) have "a \<in> {x, y, z}" "b \<in> {x, y, z}" "c \<in> {x, y, z}"
    "x \<in> {a, b, c}" "y \<in> {a, b, c}" "z \<in> {a, b, c}"
    by auto
  with assms(2-) show ?thesis by auto
qed

lemma ranks_1_2_3_join:
  assumes "ranks_1_2_3 rankings"
  shows "js_join '','' (map js_toString (js_sort (map entry_rank rankings))) = ''1,2,3''"
proof -
  from assms obtain e1 e2 e3 where r: "rankings = [e1, e2, e3]"
    by (auto simp: ranks_1_2_3_def length_Suc_conv numeral_3_eq_3)
  with assms have "set [entry_rank e1, entry_rank e2, entry_rank e3] = {JNum 1, JNum 2, JNum 3}"
    by (simp add: ranks_1_2_3_def)
  then have "[entry_rank e1, entry_rank e2, entry_rank e3] \<in>
     {[JNum 1, JNum 2, JNum 3], [JNum 1, JNum 3, JNum 2], [JNum 2, JNum 1, JNum 3],
      [JNum 2, JNum 3, JNum 1], [JNum 3, JNum 1, JNum 2], [JNum 3, JNum 2, JNum 1]}"
    by (rule perm3) simp_all
  then show ?thesis
    unfolding r
    by (auto simp: js_sort_def js_toString_def string_of_int_def digit_def)
qed

lemma checks_not_array:
  "submitSchoolRanking_checks u None s =
     Inl (ErrorResponse ''Must provide exactly 3 stall rankings'' 400)"
  by (simp add: submitSchoolRanking_checks_def)

lemma checks_rank_set:
  assumes "length rankings = 3"
    "js_join '','' (map js_toString (js_sort (map entry_rank rankings))) \<noteq> ''1,2,3''"
  shows "submitSchoolRanking_checks u (Some rankings) s = Inl InvalidRankSet"
  using assms by (simp add: submitSchoolRanking_checks_def InvalidRankSet_def)

lemma checks_duplicate:
  assumes "ranks_1_2_3 rankings" "\<not> distinct (map entry_stall_id rankings)"
  shows "submitSchoolRanking_checks u (Some rankings) s = Inl DuplicateStall"
proof -
  from assms(1) have l: "length rankings = 3" by (simp add: ranks_1_2_3_def)
  with assms(2) have "length (remdups (map entry_stall_id rankings)) \<noteq> 3"
    using length_remdups_eq [of "map entry_stall_id rankings"] by simp
  with l ranks_1_2_3_join [OF assms(1)] show ?thesis
    by (simp add: submitSchoolRanking_checks_def DuplicateStall_def)
qed

lemma checks_no_student:
  assumes "ranks_1_2_3 rankings" "distinct (map entry_stall_id rankings)"
    "Student_findById u s = None"
  shows "submitSchoolRanking_checks u (Some rankings) s =
           Inl (ErrorResponse ''Student not found'' 404)"
proof -
  from assms(1) have l: "length rankings = 3" by (simp add: ranks_1_2_3_def)
  with assms(2) have "length (remdups (map entry_stall_id rankings)) = 3"
    by (simp add: distinct_remdups_id)
  with l ranks_1_2_3_join [OF assms(1)] assms(3) show ?thesis
    by (simp add: submitSchoolRanking_checks_def)
qed

lemma checks_student:
  assumes "ranks_1_2_3 rankings" "distinct (map entry_stall_id rankings)"
    "Student_findById u s = Some st"
  shows "submitSchoolRanking_checks u (Some rankings) s =
     (if has_completed_ranking st then Inl AlreadySubmitted
      else if length (ranked_stalls rankings s) \<noteq> 3 then Inl StallNotFound
      else if filter (\<lambda>r. stall_school_id r \<noteq> student_school_id st)
                (ranked_stalls rankings s) \<noteq> [] then
        Inl (ErrorResponse
               (''You can only rank stalls from YOUR school. Invalid: '' @
                js_join '', ''
                  (map stall_name
                     (filter (\<lambda>r. stall_school_id r \<noteq> student_school_id st)
                        (ranked_stalls rankings s)))) 403)
      else Inr rankings)"
proof -
  from assms(1) have l: "length rankings = 3" by (simp add: ranks_1_2_3_def)
  with assms(2) have "length (remdups (map entry_stall_id rankings)) = 3"
    by (simp add: distinct_remdups_id)
  with l ranks_1_2_3_join [OF assms(1)] assms(3) show ?thesis
    by (simp add: submitSchoolRanking_checks_def AlreadySubmitted_def StallNotFound_def
        ranked_stalls_def Let_def)
qed

lemma checks_completed_any_body:
  assumes "Student_findById u s = Some st" "has_completed_ranking st"
  shows "\<exists>m c. submitSchoolRanking_checks u body s = Inl (ErrorResponse m c)"
  using assms
  by (cases body) (auto simp: submitSchoolRanking_checks_def Let_def)

lemma checks_passed:
  assumes "submitSchoolRanking_checks u body s = Inr rankings"
  shows "body = Some rankings"
    and "length rankings = 3"
    and "distinct (map entry_stall_id rankings)"
    and "\<exists>st. Student_findById u s = Some st \<and> \<not> has_completed_ranking st \<and>
              length (ranked_stalls rankings s) = 3 \<and>
              (\<forall>r \<in> set (ranked_stalls rankings s). stall_school_id r = student_school_id st)"
proof -
  from assms obtain rs where b: "body = Some rs"
    by (cases body) (simp_all add: submitSchoolRanking_checks_def)
  with assms have l: "length rs = 3"
    by (auto simp: submitSchoolRanking_checks_def split: if_splits)
  from assms b l have j: "js_join '','' (map js_toString (js_sort (map entry_rank rs))) = ''1,2,3''"
    by (auto simp: submitSchoolRanking_checks_def Let_def split: if_splits)
  from assms b l j have d: "length (remdups (map entry_stall_id rs)) = 3"
    by (auto simp: submitSchoolRanking_checks_def Let_def split: if_splits)
  from assms b l j d obtain st where st: "Student_findById u s = Some st"
    by (cases "Student_findById u s") (auto simp: submitSchoolRanking_checks_def Let_def)
  from assms b l j d st have rest: "\<not> has_completed_ranking st \<and>
      length (ranked_stalls rs s) = 3 \<and>
      filter (\<lambda>r. stall_school_id r \<noteq> student_school_id st) (ranked_stalls rs s) = [] \<and>
      rs = rankings"
    by (auto simp: submitSchoolRanking_checks_def Let_def ranked_stalls_def split: if_splits)
  from b rest show "body = Some rankings" by simp
  from l rest show "length rankings = 3" by simp
  from d l rest show "distinct (map entry_stall_id rankings)"
    using length_remdups_eq [of "map entry_stall_id rs"] by simp
  from st rest show "\<exists>st. Student_findById u s = Some st \<and> \<not> has_completed_ranking st \<and>
              length (ranked_stalls rankings s) = 3 \<and>
              (\<forall>r \<in> set (ranked_stalls rankings s). stall_school_id r = student_school_id st)"
    by (auto simp: filter_empty_conv)
qed

lemma fold_stall_votes:
  "fold write_stmt
     (map (\<lambda>r. Update_stall_votes (columnName (entry_rank r)) (entry_stall_id r)) rankings) s =
   s\<lparr>stalls :=
       fold (\<lambda>e. update_where (\<lambda>r. stall_id r = entry_stall_id e)
                   (set_votes (columnName (entry_rank e))))
         rankings (stalls s)\<rparr>"
  by (induction rankings arbitrary: s) (simp_all add: write_stmt_def)

lemma data_ranking_applied:
  "data (ranking_applied u rankings d) =
     (data d)
     \<lparr>students :=
        update_where (\<lambda>r. student_id r = u)
          (\<lambda>r. r\<lparr>has_completed_ranking := True, selected_category := Some ''CATEGORY_2''\<rparr>)
          (students (data d)),
      stalls :=
        fold (\<lambda>e. update_where (\<lambda>r. stall_id r = entry_stall_id e)
                    (set_votes (columnName (entry_rank e))))
          rankings (stalls (data d)),
      rankings_table :=
        rankings_table (data d) @
        map (\<lambda>r. \<lparr>rk_student_id = u, rk_stall_id = entry_stall_id r, rk_rank = entry_rank r\<rparr>)
          rankings\<rparr>"
  by (simp add: ranking_applied_def ranking_writes_def fold_stall_votes)
     (simp add: write_stmt_def)

lemma trace_one:
  "x \<in> set (trace h [a] d) \<Longrightarrow> x = d \<or> x = exec a d"
proof (cases h)
  case None
  assume "x \<in> set (trace h [a] d)"
  with None show ?thesis by auto
next
  case (Some k)
  assume "x \<in> set (trace h [a] d)"
  with Some show ?thesis by (cases k) auto
qed

lemma trace_two:
  "x \<in> set (trace h [a, b] d) \<Longrightarrow> x = d \<or> x = exec a d \<or> x = exec b (exec a d)"
proof (cases h)
  case None
  assume "x \<in> set (trace h [a, b] d)"
  with None show ?thesis by auto
next
  case (Some k)
  assume x: "x \<in> set (trace h [a, b] d)"
  show ?thesis
  proof (cases k)
    case 0
    with Some x show ?thesis by simp
  next
    case (Suc j)
    with Some x show ?thesis by (cases j) auto
  qed
qed

lemma trace_ranking_statements:
  assumes s: "saved d = None" and x: "x \<in> set (trace f (ranking_statements u rankings) d)"
  shows "committed x = data d \<or> committed x = data (ranking_applied u rankings d)"
proof -
  let ?W = "ranking_writes u rankings"
  let ?d1 = "exec BEGIN d"
  have s1: "saved ?d1 = Some (data d)" using s by (simp add: exec_def)
  from x have "x \<in> set (trace f [BEGIN] d) \<or>
      (\<exists>g. x \<in> set (trace g (?W @ [COMMIT, Select_ranked u]) (fst (run None [BEGIN] d))))"
    unfolding ranking_statements_def by (rule trace_append)
  then consider (start) "x = d \<or> x = ?d1"
    | (tail) g where "x \<in> set (trace g (?W @ [COMMIT, Select_ranked u]) ?d1)"
    using trace_one by fastforce
  then show ?thesis
  proof cases
    case start
    with s s1 show ?thesis by (auto simp: committed_def)
  next
    case tail
    then have "x \<in> set (trace g ?W ?d1) \<or>
        (\<exists>h. x \<in> set (trace h [COMMIT, Select_ranked u] (fst (run None ?W ?d1))))"
      by (rule trace_append)
    then consider (writes) "x \<in> set (trace g ?W ?d1)"
      | (commit) h where "x \<in> set (trace h [COMMIT, Select_ranked u]
                                ((ranking_applied u rankings d)\<lparr>saved := Some (data d)\<rparr>))"
      using run_ranking_writes [OF s, of u rankings] by auto
    then show ?thesis
    proof cases
      case writes
      then have "saved x = Some (data d)"
        using trace_writes [OF ranking_writes_are_writes] s1 by simp
      then show ?thesis by (simp add: committed_def)
    next
      case commit
      from trace_two [OF commit] show ?thesis
        by (auto simp: committed_def exec_def write_stmt_def ranking_applied_def)
    qed
  qed
qed

text \<open>
  A request that is alone on its session. A call of \<^verbatim>\<open>submitSchoolRanking\<close> on a session
  with no transaction open, with no statement of another request between its own,
  ends either in the state it started from or in the state with all its writes
  applied: the three ranking rows, the flag and the category of the student, and the
  vote update of each ranked stall. When the checks pass, a statement that throws up to
  and including \<^verbatim>\<open>COMMIT\<close> leaves the session exactly as it was and the error goes to
  \<^verbatim>\<open>next\<close>; and at every point of the \<^verbatim>\<open>try\<close> block, whichever statement throws, the
  committed store is the initial one or the fully applied one.
\<close>

lemma submitSchoolRanking_all_or_nothing:
  assumes "saved d = None"
  shows
    "(fst (submitSchoolRanking fault u body d) = d \<or>
      fst (submitSchoolRanking fault u body d) = fst (submitSchoolRanking None u body d)) \<and>
     (submitSchoolRanking_checks u body (data d) =
        (Inr rankings :: ranking list response + ranking_entry list) \<longrightarrow>
        fst (submitSchoolRanking None u body d) = ranking_applied u rankings d \<and>
        data (ranking_applied u rankings d) =
          (data d)
          \<lparr>students :=
             update_where (\<lambda>r. student_id r = u)
               (\<lambda>r. r\<lparr>has_completed_ranking := True, selected_category := Some ''CATEGORY_2''\<rparr>)
               (students (data d)),
           stalls :=
             fold (\<lambda>e. update_where (\<lambda>r. stall_id r = entry_stall_id e)
                         (set_votes (columnName (entry_rank e))))
               rankings (stalls (data d)),
           rankings_table :=
             rankings_table (data d) @
             map (\<lambda>r. \<lparr>rk_student_id = u, rk_stall_id = entry_stall_id r, rk_rank = entry_rank r\<rparr>)
               rankings\<rparr> \<and>
        (\<forall>k \<le> length rankings + 3. submitSchoolRanking (Some k) u body d = (d, NextError)) \<and>
        (\<forall>x \<in> set (trace fault (ranking_statements u rankings) d).
           committed x = data d \<or> committed x = data (ranking_applied u rankings d)))"
proof (cases "submitSchoolRanking_checks u body (data d) ::
                ranking list response + ranking_entry list")
  case (Inl r)
  then show ?thesis by (simp add: submitSchoolRanking_def)
next
  case (Inr rs)
  have full: "submitSchoolRanking None u body d = (ranking_applied u rs d,
                 ranking_reply u (ranking_applied u rs d))"
    using Inr assms by (simp add: submitSchoolRanking_def submitSchoolRanking_tx_None)
  have undone: "submitSchoolRanking (Some k) u body d = (d, NextError)"
    if "k \<le> length rs + 3" for k
    using Inr assms that by (simp add: submitSchoolRanking_def submitSchoolRanking_tx_rollback)
  have either: "fst (submitSchoolRanking fault u body d) = d \<or>
      fst (submitSchoolRanking fault u body d) = ranking_applied u rs d"
  proof (cases fault)
    case None
    with full show ?thesis by simp
  next
    case (Some k)
    show ?thesis
    proof (cases "k \<le> length rs + 3")
      case True
      with undone Some show ?thesis by simp
    next
      case False
      then have "length rs + 3 < k" by simp
      from submitSchoolRanking_tx_late [OF assms this] Some Inr show ?thesis
        by (simp add: submitSchoolRanking_def)
    qed
  qed
  show ?thesis
    using Inr full undone either trace_ranking_statements [OF assms]
    by (simp add: data_ranking_applied)
qed

lemma submitSchoolRanking_all_or_nothing_witness:
  "submitSchoolRanking (Some 5) ''u1'' (Some rank_ABC) example_db = (example_db, NextError) \<and>
   fst (submitSchoolRanking None ''u1'' (Some rank_ABC) example_db) =
     ranking_applied ''u1'' rank_ABC example_db \<and>
   map rank_1_votes (stalls (data (ranking_applied ''u1'' rank_ABC example_db))) = [1, 0, 0, 0] \<and>
   map rank_2_votes (stalls (data (ranking_applied ''u1'' rank_ABC example_db))) = [0, 1, 0, 0] \<and>
   map rank_3_votes (stalls (data (ranking_applied ''u1'' rank_ABC example_db))) = [0, 0, 1, 0] \<and>
   length (rankings_table (data (ranking_applied ''u1'' rank_ABC example_db))) = 3 \<and>
   list_all (\<lambda>x. committed x = example_store \<or>
                  committed x = data (ranking_applied ''u1'' rank_ABC example_db))
     (trace (Some 5) (ranking_statements ''u1'' rank_ABC) example_db)"
proof -
  have s: "saved example_db = None" by (simp add: example_db_def)
  have c: "submitSchoolRanking_checks ''u1'' (Some rank_ABC) (data example_db) =
             (Inr rank_ABC :: ranking list response + ranking_entry list)"
    by (simp add: submitSchoolRanking_checks_def rank_ABC_def entry_def js_sort_def
        js_toString_def string_of_int_def digit_def example_db_def example_store_def
        student_row_def stall_row_def Student_findById_def)
  have l: "length rank_ABC = 3" by (simp add: rank_ABC_def)
  note all = submitSchoolRanking_all_or_nothing [OF s, where u = "''u1''"
      and body = "Some rank_ABC" and rankings = rank_ABC and fault = "Some 5"]
  from all c have applied: "fst (submitSchoolRanking None ''u1'' (Some rank_ABC) example_db) =
      ranking_applied ''u1'' rank_ABC example_db"
    by blast
  from all c have "\<forall>k \<le> length rank_ABC + 3.
      submitSchoolRanking (Some k) ''u1'' (Some rank_ABC) example_db = (example_db, NextError)"
    by blast
  then have undone:
    "submitSchoolRanking (Some 5) ''u1'' (Some rank_ABC) example_db = (example_db, NextError)"
    by (simp add: l)
  from all c have "\<forall>x \<in> set (trace (Some 5) (ranking_statements ''u1'' rank_ABC) example_db).
      committed x = data example_db \<or>
      committed x = data (ranking_applied ''u1'' rank_ABC example_db)"
    by blast
  then have seen: "list_all (\<lambda>x. committed x = example_store \<or>
                  committed x = data (ranking_applied ''u1'' rank_ABC example_db))
     (trace (Some 5) (ranking_statements ''u1'' rank_ABC) example_db)"
    by (simp add: list_all_iff example_db_def)
  have v: "stalls (data (ranking_applied ''u1'' rank_ABC example_db)) =
       [(stall_row ''A'' ''CS-001'' ''sc1'' ''STALL_CS-001_1_ab'')\<lparr>rank_1_votes := 1\<rparr>,
        (stall_row ''B'' ''CS-002'' ''sc1'' ''STALL_CS-002_1_cd'')\<lparr>rank_2_votes := 1\<rparr>,
        (stall_row ''C'' ''CS-003'' ''sc1'' ''STALL_CS-003_1_ef'')\<lparr>rank_3_votes := 1\<rparr>,
        stall_row ''D'' ''ME-001'' ''sc2'' ''STALL_ME-001_1_gh'']"
    by (simp add: data_ranking_applied rank_ABC_def entry_def example_db_def example_store_def
        stall_row_def update_where_def set_votes_def columnName_def)
  have n: "length (rankings_table (data (ranking_applied ''u1'' rank_ABC example_db))) = 3"
    by (simp add: data_ranking_applied rank_ABC_def example_db_def example_store_def)
  from undone applied seen n show ?thesis
    by (simp add: v stall_row_def)
qed

lemma run_fault_take:
  "k < length qs \<Longrightarrow> run (Some k) qs d = (fst (run None (take k qs) d), True)"
proof (induction qs arbitrary: k d)
  case Nil
  then show ?case by simp
next
  case (Cons q qs)
  then show ?case by (cases k) simp_all
qed

lemma run_fault_beyond:
  "length qs \<le> k \<Longrightarrow> run (Some k) qs d = run None qs d"
proof (induction qs arbitrary: k d)
  case Nil
  then show ?case by simp
next
  case (Cons q qs)
  then show ?case by (cases k) simp_all
qed

lemma run_None_no_throw: "snd (run None qs d) = False"
  by (induction qs arbitrary: d) simp_all

text \<open>
  What a request does to the session is what its sent statements do, one after the
  other.
\<close>

lemma sent_statements_run:
  "fst (submitSchoolRanking_tx fault u rankings d) =
     fst (run None (sent_statements fault u rankings) d)"
proof (cases fault)
  case None
  then show ?thesis
    by (simp add: submitSchoolRanking_tx_def sent_statements_def case_prod_beta
        run_None_no_throw)
next
  case (Some k)
  show ?thesis
  proof (cases "k < length (ranking_statements u rankings)")
    case True
    with Some show ?thesis
      by (simp add: submitSchoolRanking_tx_def sent_statements_def run_fault_take
          run_append_None)
  next
    case False
    with Some show ?thesis
      by (simp add: submitSchoolRanking_tx_def sent_statements_def run_fault_beyond
          case_prod_beta run_None_no_throw)
  qed
qed

lemma example_checks_pass:
  "submitSchoolRanking_checks ''u1'' (Some rank_ABC) example_store = Inr rank_ABC"
  "submitSchoolRanking_checks ''u2'' (Some rank_ABC) example_store = Inr rank_ABC"
  by (simp_all add: submitSchoolRanking_checks_def rank_ABC_def entry_def js_sort_def
      js_toString_def string_of_int_def digit_def example_store_def
      student_row_def stall_row_def Student_findById_def)

lemma example_sent_statements:
  "sent_statements None u rank_ABC =
     [BEGIN,
      Ranking_bulkCreate
        [\<lparr>rk_student_id = u, rk_stall_id = ''A'', rk_rank = JNum 1\<rparr>,
         \<lparr>rk_student_id = u, rk_stall_id = ''B'', rk_rank = JNum 2\<rparr>,
         \<lparr>rk_student_id = u, rk_stall_id = ''C'', rk_rank = JNum 3\<rparr>],
      Update_student_ranking u,
      Update_stall_votes Rank_1_votes ''A'',
      Update_stall_votes Rank_2_votes ''B'',
      Update_stall_votes Rank_3_votes ''C'',
      COMMIT, Select_ranked u]"
  "sent_statements (Some 1) u rank_ABC = [BEGIN, ROLLBACK]"
  "sent_statements (Some 4) u rank_ABC =
     [BEGIN,
      Ranking_bulkCreate
        [\<lparr>rk_student_id = u, rk_stall_id = ''A'', rk_rank = JNum 1\<rparr>,
         \<lparr>rk_student_id = u, rk_stall_id = ''B'', rk_rank = JNum 2\<rparr>,
         \<lparr>rk_student_id = u, rk_stall_id = ''C'', rk_rank = JNum 3\<rparr>],
      Update_student_ranking u,
      Update_stall_votes Rank_1_votes ''A'',
      ROLLBACK]"
  by (simp_all add: sent_statements_def ranking_statements_def ranking_writes_def rank_ABC_def
      entry_def columnName_def)

text \<open>
  Claim C1 on the code. The controller never holds a connection: its \<^verbatim>\<open>BEGIN\<close>, its
  writes, its \<^verbatim>\<open>COMMIT\<close> and the \<^verbatim>\<open>ROLLBACK\<close> of its \<^verbatim>\<open>catch\<close> go through the \<^verbatim>\<open>query\<close> that
  all requests share, so the statements of two requests in flight interleave on one
  session. Students \<open>u1\<close> and \<open>u2\<close> both pass the checks with the ranking A, B, C.
  First run: \<open>u1\<close> sends \<^verbatim>\<open>BEGIN\<close>, the insert of its rows, the update of its flag and
  the vote for A; the insert of \<open>u2\<close> rejects, so \<open>u2\<close> has sent \<^verbatim>\<open>BEGIN\<close> and
  \<^verbatim>\<open>ROLLBACK\<close>; then \<open>u1\<close> sends the votes for B and C and \<^verbatim>\<open>COMMIT\<close>. The store committed
  at the end has the votes for B and C and nothing else of the ranking: no row, no
  flag, no vote for A. Second run, where nothing fails: once \<open>u1\<close> has sent its
  \<^verbatim>\<open>COMMIT\<close>, the eleventh statement, the committed store holds the rows and the flag of
  \<open>u2\<close> and its vote for A, but not yet its votes for B and C. So states in which only
  some of the three vote counters are incremented are observable, and one of them is
  final.
\<close>

theorem interleaved_requests_commit_partial_votes:
  "submitSchoolRanking_checks ''u1'' (Some rank_ABC) example_store = Inr rank_ABC \<and>
   submitSchoolRanking_checks ''u2'' (Some rank_ABC) example_store = Inr rank_ABC \<and>
   sent_statements (Some 1) ''u2'' rank_ABC = [BEGIN, ROLLBACK] \<and>
   rankings_table (committed (fst (run None
     (interleave [True, True, True, True, False, False]
        (sent_statements None ''u1'' rank_ABC) (sent_statements (Some 1) ''u2'' rank_ABC))
     example_db))) = [] \<and>
   map has_completed_ranking (students (committed (fst (run None
     (interleave [True, True, True, True, False, False]
        (sent_statements None ''u1'' rank_ABC) (sent_statements (Some 1) ''u2'' rank_ABC))
     example_db)))) = [False, False] \<and>
   map (\<lambda>r. (rank_1_votes r, rank_2_votes r, rank_3_votes r)) (stalls (committed (fst (run None
     (interleave [True, True, True, True, False, False]
        (sent_statements None ''u1'' rank_ABC) (sent_statements (Some 1) ''u2'' rank_ABC))
     example_db)))) = [(0, 0, 0), (0, 1, 0), (0, 0, 1), (0, 0, 0)] \<and>
   map rk_student_id (rankings_table (committed (fst (run None
     (take 11 (interleave [True, True, True, True, True, True, False, False, False, False]
        (sent_statements None ''u1'' rank_ABC) (sent_statements None ''u2'' rank_ABC)))
     example_db)))) = [''u1'', ''u1'', ''u1'', ''u2'', ''u2'', ''u2''] \<and>
   map has_completed_ranking (students (committed (fst (run None
     (take 11 (interleave [True, True, True, True, True, True, False, False, False, False]
        (sent_statements None ''u1'' rank_ABC) (sent_statements None ''u2'' rank_ABC)))
     example_db)))) = [True, True] \<and>
   map (\<lambda>r. (rank_1_votes r, rank_2_votes r, rank_3_votes r)) (stalls (committed (fst (run None
     (take 11 (interleave [True, True, True, True, True, True, False, False, False, False]
        (sent_statements None ''u1'' rank_ABC) (sent_statements None ''u2'' rank_ABC)))
     example_db)))) = [(2, 0, 0), (0, 1, 0), (0, 0, 1), (0, 0, 0)]"
proof -
  note c1 = example_checks_pass(1)
  note c2 = example_checks_pass(2)
  note two = example_sent_statements(2) [of "''u2''"]
  have rows: "rankings_table (committed (fst (run None
     (interleave [True, True, True, True, False, False]
        (sent_statements None ''u1'' rank_ABC) (sent_statements (Some 1) ''u2'' rank_ABC))
     example_db))) = []"
    unfolding example_sent_statements
    by (simp add: exec_def write_stmt_def update_where_def set_votes_def committed_def
        example_db_def example_store_def stall_row_def student_row_def)
  have flags: "map has_completed_ranking (students (committed (fst (run None
     (interleave [True, True, True, True, False, False]
        (sent_statements None ''u1'' rank_ABC) (sent_statements (Some 1) ''u2'' rank_ABC))
     example_db)))) = [False, False]"
    unfolding example_sent_statements
    by (simp add: exec_def write_stmt_def update_where_def set_votes_def committed_def
        example_db_def example_store_def stall_row_def student_row_def)
  have votes: "map (\<lambda>r. (rank_1_votes r, rank_2_votes r, rank_3_votes r))
     (stalls (committed (fst (run None
     (interleave [True, True, True, True, False, False]
        (sent_statements None ''u1'' rank_ABC) (sent_statements (Some 1) ''u2'' rank_ABC))
     example_db)))) = [(0, 0, 0), (0, 1, 0), (0, 0, 1), (0, 0, 0)]"
    unfolding example_sent_statements
    by (simp add: exec_def write_stmt_def update_where_def set_votes_def committed_def
        example_db_def example_store_def stall_row_def student_row_def)
  have rows': "map rk_student_id (rankings_table (committed (fst (run None
     (take 11 (interleave [True, True, True, True, True, True, False, False, False, False]
        (sent_statements None ''u1'' rank_ABC) (sent_statements None ''u2'' rank_ABC)))
     example_db)))) = [''u1'', ''u1'', ''u1'', ''u2'', ''u2'', ''u2'']"
    unfolding example_sent_statements
    by (simp add: exec_def write_stmt_def update_where_def set_votes_def committed_def
        example_db_def example_store_def stall_row_def student_row_def)
  have flags': "map has_completed_ranking (students (committed (fst (run None
     (take 11 (interleave [True, True, True, True, True, True, False, False, False, False]
        (sent_statements None ''u1'' rank_ABC) (sent_statements None ''u2'' rank_ABC)))
     example_db)))) = [True, True]"
    unfolding example_sent_statements
    by (simp add: exec_def write_stmt_def update_where_def set_votes_def committed_def
        example_db_def example_store_def stall_row_def student_row_def)
  have votes': "map (\<lambda>r. (rank_1_votes r, rank_2_votes r, rank_3_votes r))
     (stalls (committed (fst (run None
     (take 11 (interleave [True, True, True, True, True, True, False, False, False, False]
        (sent_statements None ''u1'' rank_ABC) (sent_statements None ''u2'' rank_ABC)))
     example_db)))) = [(2, 0, 0), (0, 1, 0), (0, 0, 1), (0, 0, 0)]"
    unfolding example_sent_statements
    by (simp add: exec_def write_stmt_def update_where_def set_votes_def committed_def
        example_db_def example_store_def stall_row_def student_row_def)
  from c1 c2 two rows flags votes rows' flags' votes' show ?thesis
    by (intro conjI) assumption+
qed

text \<open>
  On the other reading of \<^verbatim>\<open>query\<close>, a connection per statement, one request is
  enough: when the vote update of stall B rejects, the \<^verbatim>\<open>ROLLBACK\<close> of the \<^verbatim>\<open>catch\<close>
  undoes nothing, and the rows, the flag and the vote for A stay committed.
\<close>

lemma per_call_fault_leaves_partial_votes:
  "map rk_student_id
     (rankings_table (run_per_call (sent_statements (Some 4) ''u1'' rank_ABC) example_store)) =
     [''u1'', ''u1'', ''u1''] \<and>
   map has_completed_ranking
     (students (run_per_call (sent_statements (Some 4) ''u1'' rank_ABC) example_store)) =
     [True, False] \<and>
   map (\<lambda>r. (rank_1_votes r, rank_2_votes r, rank_3_votes r))
     (stalls (run_per_call (sent_statements (Some 4) ''u1'' rank_ABC) example_store)) =
     [(1, 0, 0), (0, 0, 0), (0, 0, 0), (0, 0, 0)]"
  unfolding example_sent_statements run_per_call_def
  by (simp add: write_stmt_def update_where_def set_votes_def example_store_def
      stall_row_def student_row_def)

lemma checks_Inl_error:
  "submitSchoolRanking_checks u body s = Inl r \<Longrightarrow> \<exists>m c. r = ErrorResponse m c"
  by (cases body)
     (auto simp: submitSchoolRanking_checks_def Let_def split: if_splits option.splits)

lemma checks_again:
  assumes "submitSchoolRanking_checks u body s =
             (Inr rankings :: ranking list response + ranking_entry list)"
    and "Student_findById u s' = Some st'" "has_completed_ranking st'"
  shows "submitSchoolRanking_checks u body s' = Inl AlreadySubmitted"
proof -
  from assms(1) obtain rs where b: "body = Some rs"
    by (cases body) (simp_all add: submitSchoolRanking_checks_def)
  with assms(1) have l: "length rs = 3"
    by (auto simp: submitSchoolRanking_checks_def split: if_splits)
  from assms(1) b l have j: "js_join '','' (map js_toString (js_sort (map entry_rank rs))) = ''1,2,3''"
    by (auto simp: submitSchoolRanking_checks_def Let_def split: if_splits)
  from assms(1) b l j have d: "length (remdups (map entry_stall_id rs)) = 3"
    by (auto simp: submitSchoolRanking_checks_def Let_def split: if_splits)
  from b l j d assms(2,3) show ?thesis
    by (simp add: submitSchoolRanking_checks_def AlreadySubmitted_def)
qed

lemma student_after_ranking:
  "Student_findById u (data (ranking_applied u rankings d)) =
     map_option (\<lambda>r. r\<lparr>has_completed_ranking := True, selected_category := Some ''CATEGORY_2''\<rparr>)
       (Student_findById u (data d))"
proof -
  have "find (\<lambda>r. student_id r = u)
          (update_where (\<lambda>r. student_id r = u)
             (\<lambda>r. r\<lparr>has_completed_ranking := True, selected_category := Some ''CATEGORY_2''\<rparr>)
             (students (data d))) =
        map_option (\<lambda>r. r\<lparr>has_completed_ranking := True, selected_category := Some ''CATEGORY_2''\<rparr>)
          (find (\<lambda>r. student_id r = u) (students (data d)))"
    by (rule find_update_where_same) simp
  then show ?thesis
    by (simp add: Student_findById_def data_ranking_applied)
qed

lemma submitSchoolRanking_success:
  assumes "saved d = None" "is_success (snd (submitSchoolRanking None u body d))"
  obtains rankings st where
    "submitSchoolRanking_checks u body (data d) =
       (Inr rankings :: ranking list response + ranking_entry list)"
    "fst (submitSchoolRanking None u body d) = ranking_applied u rankings d"
    "Student_findById u (data (ranking_applied u rankings d)) = Some st"
    "has_completed_ranking st"
proof (cases "submitSchoolRanking_checks u body (data d) ::
                ranking list response + ranking_entry list")
  case (Inl r)
  with checks_Inl_error [OF Inl] assms(2) show ?thesis
    by (auto simp: submitSchoolRanking_def is_success_def)
next
  case (Inr rs)
  from checks_passed(4) [OF Inr] obtain st where st: "Student_findById u (data d) = Some st"
    by blast
  have a: "fst (submitSchoolRanking None u body d) = ranking_applied u rs d"
    using Inr assms(1) by (simp add: submitSchoolRanking_def submitSchoolRanking_tx_None)
  show ?thesis
    using that [OF Inr a] st by (simp add: student_after_ranking)
qed

lemma submitSchoolRanking_second_call:
  assumes "saved d = None" "is_success (snd (submitSchoolRanking None u body d))"
  shows "fst (submitSchoolRanking fault u body' (fst (submitSchoolRanking None u body d))) =
           fst (submitSchoolRanking None u body d)"
    and "\<not> is_success
            (snd (submitSchoolRanking fault u body' (fst (submitSchoolRanking None u body d))))"
    and "snd (submitSchoolRanking fault u body (fst (submitSchoolRanking None u body d))) =
           AlreadySubmitted"
    and "ranks_1_2_3 rankings' \<Longrightarrow> distinct (map entry_stall_id rankings') \<Longrightarrow>
         snd (submitSchoolRanking fault u (Some rankings')
                (fst (submitSchoolRanking None u body d))) = AlreadySubmitted"
proof -
  from assms obtain rankings st where
    c: "submitSchoolRanking_checks u body (data d) =
       (Inr rankings :: ranking list response + ranking_entry list)"
    and a: "fst (submitSchoolRanking None u body d) = ranking_applied u rankings d"
    and st: "Student_findById u (data (ranking_applied u rankings d)) = Some st"
      "has_completed_ranking st"
    by (rule submitSchoolRanking_success)
  from checks_completed_any_body [OF st, of body'] obtain m c where
    e: "submitSchoolRanking_checks u body' (data (ranking_applied u rankings d)) =
          (Inl (ErrorResponse m c) :: ranking list response + ranking_entry list)"
    by blast
  from e a show "fst (submitSchoolRanking fault u body' (fst (submitSchoolRanking None u body d))) =
           fst (submitSchoolRanking None u body d)"
    by (simp add: submitSchoolRanking_def)
  from e a show "\<not> is_success
            (snd (submitSchoolRanking fault u body' (fst (submitSchoolRanking None u body d))))"
    by (simp add: submitSchoolRanking_def is_success_def)
  from checks_again [OF c st] a
  show "snd (submitSchoolRanking fault u body (fst (submitSchoolRanking None u body d))) =
           AlreadySubmitted"
    by (simp add: submitSchoolRanking_def)
  show "snd (submitSchoolRanking fault u (Some rankings')
                (fst (submitSchoolRanking None u body d))) = AlreadySubmitted"
    if "ranks_1_2_3 rankings'" "distinct (map entry_stall_id rankings')"
    using checks_student [OF that st(1)] st(2) a by (simp add: submitSchoolRanking_def)
qed

lemma submitSchoolRanking_cross_school:
  assumes "ranks_1_2_3 rankings" "distinct (map entry_stall_id rankings)"
    "Student_findById u (data d) = Some st" "\<not> has_completed_ranking st"
    "length (ranked_stalls rankings (data d)) = 3"
    "r \<in> set (ranked_stalls rankings (data d))" "stall_school_id r \<noteq> student_school_id st"
  shows "fst (submitSchoolRanking fault u (Some rankings) d) = d"
    and "is_CrossSchoolStall (snd (submitSchoolRanking fault u (Some rankings) d))"
proof -
  from assms(6,7)
  have "filter (\<lambda>r. stall_school_id r \<noteq> student_school_id st)
          (ranked_stalls rankings (data d)) \<noteq> []"
    by (auto simp: filter_empty_conv)
  with checks_student [OF assms(1-3)] assms(4,5)
  have c: "submitSchoolRanking_checks u (Some rankings) (data d) =
        (Inl (ErrorResponse
               (''You can only rank stalls from YOUR school. Invalid: '' @
                js_join '', ''
                  (map stall_name
                     (filter (\<lambda>r. stall_school_id r \<noteq> student_school_id st)
                        (ranked_stalls rankings (data d))))) 403)
          :: ranking list response + ranking_entry list)"
    by simp
  from c show "fst (submitSchoolRanking fault u (Some rankings) d) = d"
    by (simp add: submitSchoolRanking_def)
  from c show "is_CrossSchoolStall (snd (submitSchoolRanking fault u (Some rankings) d))"
    by (simp add: submitSchoolRanking_def is_CrossSchoolStall_def)
qed

lemma ranks_1_1_2:
  "submitSchoolRanking fault u (Some [entry ia (JNum 1), entry ib (JNum 1), entry ic (JNum 2)]) d =
     (d, InvalidRankSet)"
proof -
  have "submitSchoolRanking_checks u
          (Some [entry ia (JNum 1), entry ib (JNum 1), entry ic (JNum 2)]) (data d) =
        (Inl InvalidRankSet :: ranking list response + ranking_entry list)"
    by (rule checks_rank_set)
       (simp_all add: entry_def js_sort_def js_toString_def string_of_int_def digit_def)
  then show ?thesis by (simp add: submitSchoolRanking_def)
qed

text \<open>
  Claim C5. With ranks 1, 1, 2 the call fails with \<open>InvalidRankSet\<close>, whatever the stalls
  and the store. With the ranks 1, 2, 3 and a repeated stall id it fails with
  \<open>DuplicateStall\<close>. With ranks 1, 2, 3 on three stalls that exist, by a student who
  has not ranked yet, it fails with the cross-school response as soon as one of the
  stalls belongs to another school. After a successful call, the same call again, and
  any call with ranks 1, 2, 3 on three different stall ids, fails with
  \<open>AlreadySubmitted\<close>; no second call of the student succeeds, and each leaves the
  session, hence every vote counter, unchanged.
\<close>

theorem submitSchoolRanking_rejections:
  "submitSchoolRanking fault u
     (Some [entry ia (JNum 1), entry ib (JNum 1), entry ic (JNum 2)]) d = (d, InvalidRankSet) \<and>
   (ranks_1_2_3 rankings \<and> \<not> distinct (map entry_stall_id rankings) \<longrightarrow>
      submitSchoolRanking fault u (Some rankings) d = (d, DuplicateStall)) \<and>
   (ranks_1_2_3 rankings \<and> distinct (map entry_stall_id rankings) \<and>
    Student_findById u (data d) = Some st \<and> \<not> has_completed_ranking st \<and>
    length (ranked_stalls rankings (data d)) = 3 \<and>
    r \<in> set (ranked_stalls rankings (data d)) \<and> stall_school_id r \<noteq> student_school_id st \<longrightarrow>
      fst (submitSchoolRanking fault u (Some rankings) d) = d \<and>
      is_CrossSchoolStall (snd (submitSchoolRanking fault u (Some rankings) d))) \<and>
   (saved d = None \<and> is_success (snd (submitSchoolRanking None u body d)) \<longrightarrow>
      snd (submitSchoolRanking fault u body (fst (submitSchoolRanking None u body d))) =
        AlreadySubmitted \<and>
      fst (submitSchoolRanking fault u body' (fst (submitSchoolRanking None u body d))) =
        fst (submitSchoolRanking None u body d) \<and>
      \<not> is_success
          (snd (submitSchoolRanking fault u body' (fst (submitSchoolRanking None u body d)))) \<and>
      (ranks_1_2_3 rankings' \<and> distinct (map entry_stall_id rankings') \<longrightarrow>
         snd (submitSchoolRanking fault u (Some rankings')
                (fst (submitSchoolRanking None u body d))) = AlreadySubmitted))"
proof -
  have one: "submitSchoolRanking fault u
     (Some [entry ia (JNum 1), entry ib (JNum 1), entry ic (JNum 2)]) d = (d, InvalidRankSet)"
    by (rule ranks_1_1_2)
  have two: "ranks_1_2_3 rankings \<and> \<not> distinct (map entry_stall_id rankings) \<longrightarrow>
      submitSchoolRanking fault u (Some rankings) d = (d, DuplicateStall)"
    using checks_duplicate [of rankings u "data d"] by (simp add: submitSchoolRanking_def)
  have three: "ranks_1_2_3 rankings \<and> distinct (map entry_stall_id rankings) \<and>
      Student_findById u (data d) = Some st \<and> \<not> has_completed_ranking st \<and>
      length (ranked_stalls rankings (data d)) = 3 \<and>
      r \<in> set (ranked_stalls rankings (data d)) \<and> stall_school_id r \<noteq> student_school_id st \<longrightarrow>
      fst (submitSchoolRanking fault u (Some rankings) d) = d \<and>
      is_CrossSchoolStall (snd (submitSchoolRanking fault u (Some rankings) d))"
    using submitSchoolRanking_cross_school [of rankings u d st r fault] by blast
  have four: "saved d = None \<and> is_success (snd (submitSchoolRanking None u body d)) \<longrightarrow>
      snd (submitSchoolRanking fault u body (fst (submitSchoolRanking None u body d))) =
        AlreadySubmitted \<and>
      fst (submitSchoolRanking fault u body' (fst (submitSchoolRanking None u body d))) =
        fst (submitSchoolRanking None u body d) \<and>
      \<not> is_success
          (snd (submitSchoolRanking fault u body' (fst (submitSchoolRanking None u body d)))) \<and>
      (ranks_1_2_3 rankings' \<and> distinct (map entry_stall_id rankings') \<longrightarrow>
         snd (submitSchoolRanking fault u (Some rankings')
                (fst (submitSchoolRanking None u body d))) = AlreadySubmitted)"
  proof
    assume h: "saved d = None \<and> is_success (snd (submitSchoolRanking None u body d))"
    then have s: "saved d = None" and ok: "is_success (snd (submitSchoolRanking None u body d))"
      by simp_all
    show "snd (submitSchoolRanking fault u body (fst (submitSchoolRanking None u body d))) =
        AlreadySubmitted \<and>
      fst (submitSchoolRanking fault u body' (fst (submitSchoolRanking None u body d))) =
        fst (submitSchoolRanking None u body d) \<and>
      \<not> is_success
          (snd (submitSchoolRanking fault u body' (fst (submitSchoolRanking None u body d)))) \<and>
      (ranks_1_2_3 rankings' \<and> distinct (map entry_stall_id rankings') \<longrightarrow>
         snd (submitSchoolRanking fault u (Some rankings')
                (fst (submitSchoolRanking None u body d))) = AlreadySubmitted)"
      using submitSchoolRanking_second_call(1) [OF s ok, of fault body']
        submitSchoolRanking_second_call(2) [OF s ok, of fault body']
        submitSchoolRanking_second_call(3) [OF s ok, of fault]
        submitSchoolRanking_second_call(4) [OF s ok, of rankings' fault]
      by simp
  qed
  from one two three four show ?thesis by (intro conjI) assumption+
qed

theorem submitSchoolRanking_rejections_witness:
  "submitSchoolRanking None ''u1''
     (Some [entry ''A'' (JNum 1), entry ''A'' (JNum 2), entry ''B'' (JNum 3)]) example_db =
     (example_db, DuplicateStall) \<and>
   is_CrossSchoolStall
     (snd (submitSchoolRanking None ''u1''
        (Some [entry ''A'' (JNum 1), entry ''B'' (JNum 2), entry ''D'' (JNum 3)]) example_db)) \<and>
   snd (submitSchoolRanking None ''u1'' (Some rank_ABC)
          (fst (submitSchoolRanking None ''u1'' (Some rank_ABC) example_db))) = AlreadySubmitted \<and>
   snd (submitSchoolRanking None ''u1''
          (Some [entry ''B'' (JNum 1), entry ''A'' (JNum 2), entry ''C'' (JNum 3)])
          (fst (submitSchoolRanking None ''u1'' (Some rank_ABC) example_db))) = AlreadySubmitted \<and>
   fst (submitSchoolRanking None ''u1'' None
          (fst (submitSchoolRanking None ''u1'' (Some rank_ABC) example_db))) =
     fst (submitSchoolRanking None ''u1'' (Some rank_ABC) example_db)"
proof -
  let ?AAB = "[entry ''A'' (JNum 1), entry ''A'' (JNum 2), entry ''B'' (JNum 3)]"
  let ?ABD = "[entry ''A'' (JNum 1), entry ''B'' (JNum 2), entry ''D'' (JNum 3)]"
  let ?BAC = "[entry ''B'' (JNum 1), entry ''A'' (JNum 2), entry ''C'' (JNum 3)]"
  have r: "ranks_1_2_3 ?AAB" "ranks_1_2_3 ?ABD" "ranks_1_2_3 ?BAC"
    by (auto simp: ranks_1_2_3_def entry_def)
  have i: "\<not> distinct (map entry_stall_id ?AAB)" "distinct (map entry_stall_id ?ABD)"
    "distinct (map entry_stall_id ?BAC)"
    by (simp_all add: entry_def)
  have u: "Student_findById ''u1'' (data example_db) = Some (student_row ''u1'' ''R1'' ''sc1'' True)"
    "\<not> has_completed_ranking (student_row ''u1'' ''R1'' ''sc1'' True)"
    by (simp_all add: example_db_def example_store_def student_row_def Student_findById_def)
  have k: "ranked_stalls ?ABD (data example_db) =
             [stall_row ''A'' ''CS-001'' ''sc1'' ''STALL_CS-001_1_ab'',
              stall_row ''B'' ''CS-002'' ''sc1'' ''STALL_CS-002_1_cd'',
              stall_row ''D'' ''ME-001'' ''sc2'' ''STALL_ME-001_1_gh'']"
    by (simp add: ranked_stalls_def entry_def example_db_def example_store_def stall_row_def)
  have f: "stall_school_id (stall_row ''D'' ''ME-001'' ''sc2'' ''STALL_ME-001_1_gh'') \<noteq>
           student_school_id (student_row ''u1'' ''R1'' ''sc1'' True)"
    by (simp add: stall_row_def student_row_def)
  have s: "saved example_db = None" by (simp add: example_db_def)
  have c: "submitSchoolRanking_checks ''u1'' (Some rank_ABC) (data example_db) = Inr rank_ABC"
    by (simp add: submitSchoolRanking_checks_def rank_ABC_def entry_def js_sort_def
        js_toString_def string_of_int_def digit_def example_db_def example_store_def
        student_row_def stall_row_def Student_findById_def)
  have ok: "is_success (snd (submitSchoolRanking None ''u1'' (Some rank_ABC) example_db))"
    using c s
    by (simp add: submitSchoolRanking_def submitSchoolRanking_tx_None ranking_reply_def
        is_success_def)
  note inst = submitSchoolRanking_rejections [where fault = None and u = "''u1''"
      and d = example_db and ia = "''A''" and ib = "''B''" and ic = "''C''"
      and st = "student_row ''u1'' ''R1'' ''sc1'' True"
      and r = "stall_row ''D'' ''ME-001'' ''sc2'' ''STALL_ME-001_1_gh''"
      and body = "Some rank_ABC" and body' = None and rankings' = ?BAC]
  from inst [where rankings = ?AAB] r(1) i(1)
  have one: "submitSchoolRanking None ''u1'' (Some ?AAB) example_db = (example_db, DuplicateStall)"
    by blast
  have m: "stall_row ''D'' ''ME-001'' ''sc2'' ''STALL_ME-001_1_gh'' \<in>
           set (ranked_stalls ?ABD (data example_db))"
    "length (ranked_stalls ?ABD (data example_db)) = 3"
    by (simp_all add: k)
  from inst [where rankings = ?ABD] r(2) i(2) u m f
  have two: "is_CrossSchoolStall (snd (submitSchoolRanking None ''u1'' (Some ?ABD) example_db))"
    by blast
  from inst [where rankings = ?ABD] s ok r(3) i(3)
  have three: "snd (submitSchoolRanking None ''u1'' (Some rank_ABC)
          (fst (submitSchoolRanking None ''u1'' (Some rank_ABC) example_db))) = AlreadySubmitted"
    "snd (submitSchoolRanking None ''u1'' (Some ?BAC)
          (fst (submitSchoolRanking None ''u1'' (Some rank_ABC) example_db))) = AlreadySubmitted"
    "fst (submitSchoolRanking None ''u1'' None
          (fst (submitSchoolRanking None ''u1'' (Some rank_ABC) example_db))) =
     fst (submitSchoolRanking None ''u1'' (Some rank_ABC) example_db)"
    by blast+
  from one two three show ?thesis by simp
qed

lemma set_votes_effect:
  "rank_1_votes (set_votes c r) = rank_1_votes r + (if c = Rank_1_votes then 1 else 0)"
  "rank_2_votes (set_votes c r) = rank_2_votes r + (if c = Rank_2_votes then 1 else 0)"
  "rank_3_votes (set_votes c r) = rank_3_votes r + (if c = Rank_3_votes then 1 else 0)"
  "weighted_score (set_votes c r) = 5 * rank_1_votes r + 3 * rank_2_votes r + rank_3_votes r"
  by (cases c; simp add: set_votes_def)+

text \<open>
  Claim C4 on the code. After a successful submission that ranks the fresh stalls
  \<open>A\<close>, \<open>B\<close>, \<open>C\<close> first, second and third, each stall has its vote counted, and each
  \<^verbatim>\<open>weighted_score\<close> is still 0: the \<^verbatim>\<open>UPDATE\<close> computes it from the counters as they
  were before the increment of the same statement. When the three ranks arrive as the
  strings \<^verbatim>\<open>"1"\<close>, \<^verbatim>\<open>"2"\<close>, \<^verbatim>\<open>"3"\<close>, the request passes the rank check and all three
  votes go to \<^verbatim>\<open>rank_3_votes\<close>.
\<close>

theorem submitSchoolRanking_stale_weighted_score:
  "is_success (snd (submitSchoolRanking None ''u1'' (Some rank_ABC) example_db)) \<and>
   map (\<lambda>r. (rank_1_votes r, rank_2_votes r, rank_3_votes r, weighted_score r))
     (stalls (data (fst (submitSchoolRanking None ''u1'' (Some rank_ABC) example_db)))) =
     [(1, 0, 0, 0), (0, 1, 0, 0), (0, 0, 1, 0), (0, 0, 0, 0)] \<and>
   map (\<lambda>r. weighted_score r = 5 * rank_1_votes r + 3 * rank_2_votes r + 1 * rank_3_votes r)
     (stalls (data (fst (submitSchoolRanking None ''u1'' (Some rank_ABC) example_db)))) =
     [False, False, False, True] \<and>
   is_success
     (snd (submitSchoolRanking None ''u1''
        (Some [entry ''A'' (JStr ''1''), entry ''B'' (JStr ''2''), entry ''C'' (JStr ''3'')])
        example_db)) \<and>
   map (\<lambda>r. (rank_1_votes r, rank_2_votes r, rank_3_votes r))
     (stalls (data (fst (submitSchoolRanking None ''u1''
        (Some [entry ''A'' (JStr ''1''), entry ''B'' (JStr ''2''), entry ''C'' (JStr ''3'')])
        example_db)))) =
     [(0, 0, 1), (0, 0, 1), (0, 0, 1), (0, 0, 0)]"
proof -
  let ?S = "[entry ''A'' (JStr ''1''), entry ''B'' (JStr ''2''), entry ''C'' (JStr ''3'')]"
  have s: "saved example_db = None" by (simp add: example_db_def)
  have c: "submitSchoolRanking_checks ''u1'' (Some rank_ABC) (data example_db) = Inr rank_ABC"
    by (simp add: submitSchoolRanking_checks_def rank_ABC_def entry_def js_sort_def
        js_toString_def string_of_int_def digit_def example_db_def example_store_def
        student_row_def stall_row_def Student_findById_def)
  have c': "submitSchoolRanking_checks ''u1'' (Some ?S) (data example_db) = Inr ?S"
    by (simp add: submitSchoolRanking_checks_def entry_def js_sort_def
        js_toString_def example_db_def example_store_def
        student_row_def stall_row_def Student_findById_def)
  have a: "submitSchoolRanking None ''u1'' (Some rank_ABC) example_db =
             (ranking_applied ''u1'' rank_ABC example_db,
              ranking_reply ''u1'' (ranking_applied ''u1'' rank_ABC example_db))"
    using c s by (simp add: submitSchoolRanking_def submitSchoolRanking_tx_None)
  have a': "submitSchoolRanking None ''u1'' (Some ?S) example_db =
             (ranking_applied ''u1'' ?S example_db,
              ranking_reply ''u1'' (ranking_applied ''u1'' ?S example_db))"
    using c' s by (simp add: submitSchoolRanking_def submitSchoolRanking_tx_None)
  show ?thesis
    unfolding a a'
    by (simp add: ranking_reply_def is_success_def data_ranking_applied rank_ABC_def entry_def
        example_db_def example_store_def stall_row_def update_where_def set_votes_def
        columnName_def)
qed

text \<open>
  Claim C2 on the code. The check of \<^verbatim>\<open>has_completed_ranking\<close> is made before \<^verbatim>\<open>BEGIN\<close>,
  on a row read without a lock, and the transaction does not look at the flag again.
  Two requests of the same student that both pass the checks before either
  transaction runs both succeed: the second transaction runs on a store in which the
  flag is already true, inserts three more rows and counts every vote a second time.
\<close>

theorem concurrent_submissions_both_succeed:
  "map has_completed_ranking
     (students (data (fst (submitSchoolRanking None ''u1'' (Some rank_ABC) example_db)))) =
     [True, False] \<and>
   is_success
     (snd (submitSchoolRanking_tx None ''u1'' rank_ABC
        (fst (submitSchoolRanking None ''u1'' (Some rank_ABC) example_db)))) \<and>
   is_success (fst (snd (two_concurrent_submissions ''u1'' (Some rank_ABC) ''u1'' (Some rank_ABC)
                           example_db))) \<and>
   is_success (snd (snd (two_concurrent_submissions ''u1'' (Some rank_ABC) ''u1'' (Some rank_ABC)
                           example_db))) \<and>
   length (rankings_table (data (fst
     (two_concurrent_submissions ''u1'' (Some rank_ABC) ''u1'' (Some rank_ABC) example_db)))) = 6 \<and>
   map (\<lambda>r. (rank_1_votes r, rank_2_votes r, rank_3_votes r))
     (stalls (data (fst
       (two_concurrent_submissions ''u1'' (Some rank_ABC) ''u1'' (Some rank_ABC) example_db)))) =
     [(2, 0, 0), (0, 2, 0), (0, 0, 2), (0, 0, 0)]"
proof -
  have s: "saved example_db = None" by (simp add: example_db_def)
  have s': "saved (ranking_applied u rs d) = None" for u rs d
    by (simp add: ranking_applied_def)
  have c: "submitSchoolRanking_checks ''u1'' (Some rank_ABC) (data example_db) = Inr rank_ABC"
    by (simp add: submitSchoolRanking_checks_def rank_ABC_def entry_def js_sort_def
        js_toString_def string_of_int_def digit_def example_db_def example_store_def
        student_row_def stall_row_def Student_findById_def)
  have a: "submitSchoolRanking None ''u1'' (Some rank_ABC) example_db =
             (ranking_applied ''u1'' rank_ABC example_db,
              ranking_reply ''u1'' (ranking_applied ''u1'' rank_ABC example_db))"
    using c s by (simp add: submitSchoolRanking_def submitSchoolRanking_tx_None)
  have t: "two_concurrent_submissions ''u1'' (Some rank_ABC) ''u1'' (Some rank_ABC) example_db =
             (ranking_applied ''u1'' rank_ABC (ranking_applied ''u1'' rank_ABC example_db),
              ranking_reply ''u1'' (ranking_applied ''u1'' rank_ABC example_db),
              ranking_reply ''u1''
                (ranking_applied ''u1'' rank_ABC (ranking_applied ''u1'' rank_ABC example_db)))"
    using c s by (simp add: two_concurrent_submissions_def submitSchoolRanking_tx_None s')
  show ?thesis
    unfolding a t
    by (simp add: submitSchoolRanking_tx_None s' ranking_reply_def is_success_def
        data_ranking_applied rank_ABC_def entry_def example_db_def example_store_def
        student_row_def stall_row_def update_where_def set_votes_def columnName_def)
qed

section \<open>Properties of the scan\<close>

lemma find_update_where_key:
  assumes "\<And>r. q (f r) = q r"
  shows "find q (update_where p f rows) =
         map_option (\<lambda>r. if p r then f r else r) (find q rows)"
  using assms by (induction rows) (auto simp: update_where_def)

lemma scanStudentQR_step:
  assumes v: "verify t = Some reg"
    and st: "Student_findByRegistrationNo reg (data d) = Some st"
    and vol: "not_inactive v (data d)"
  shows "\<exists>d'. scanStudentQR verify v t d =
           (d', SuccessResponse (if is_inside_event st then EXIT else ENTRY) []
                  (if is_inside_event st then 200 else 201)) \<and>
         Student_findByRegistrationNo reg (data d') =
           Some (st\<lparr>is_inside_event := \<not> is_inside_event st\<rparr>) \<and>
         not_inactive v (data d')"
proof -
  define d' where "d' = exec (Update_volunteer_scans v) (exec (Student_processCheckInOut (student_id st)) d)"
  have active: "\<not> (case Volunteer_findById v (data d) of None \<Rightarrow> False
                          | Some vr \<Rightarrow> \<not> is_active vr)"
    using vol by (cases "Volunteer_findById v (data d)") (simp_all add: not_inactive_def)
  have r: "scanStudentQR verify v t d =
           (d', SuccessResponse (if is_inside_event st then EXIT else ENTRY) []
                  (if is_inside_event st then 200 else 201))"
    using v st active by (simp add: scanStudentQR_def d'_def Let_def)
  have "Student_findByRegistrationNo reg (data d') =
        find (\<lambda>r. registration_no r = reg)
          (update_where (\<lambda>r. student_id r = student_id st)
             (\<lambda>r. r\<lparr>is_inside_event := \<not> is_inside_event r\<rparr>) (students (data d)))"
    by (simp add: d'_def exec_def write_stmt_def Student_findByRegistrationNo_def)
  also have "\<dots> = map_option (\<lambda>r. if student_id r = student_id st
                           then r\<lparr>is_inside_event := \<not> is_inside_event r\<rparr> else r)
                      (find (\<lambda>r. registration_no r = reg) (students (data d)))"
    by (rule find_update_where_key) simp
  finally have s': "Student_findByRegistrationNo reg (data d') =
      Some (st\<lparr>is_inside_event := \<not> is_inside_event st\<rparr>)"
    using st by (simp add: Student_findByRegistrationNo_def)
  have "Volunteer_findById v (data d') =
        find (\<lambda>r. volunteer_id r = v)
          (update_where (\<lambda>r. volunteer_id r = v)
             (\<lambda>r. r\<lparr>total_scans_performed := total_scans_performed r + 1\<rparr>)
             (volunteers (data d)))"
    by (simp add: d'_def exec_def write_stmt_def Volunteer_findById_def)
  also have "\<dots> = map_option (\<lambda>r. r\<lparr>total_scans_performed := total_scans_performed r + 1\<rparr>)
                      (find (\<lambda>r. volunteer_id r = v) (volunteers (data d)))"
    by (rule find_update_where_same) simp
  finally have v': "not_inactive v (data d')"
    using vol by (cases "find (\<lambda>r. volunteer_id r = v) (volunteers (data d))")
      (simp_all add: Volunteer_findById_def not_inactive_def)
  from r s' v' show ?thesis by blast
qed

lemma scans_alternating:
  assumes "verify t = Some reg"
    and "Student_findByRegistrationNo reg (data d) = Some st"
    and "not_inactive v (data d)"
  shows "fst (scans verify v t n d) = alternating (is_inside_event st) n \<and>
         Student_findByRegistrationNo reg (data (snd (scans verify v t n d))) =
           Some (st\<lparr>is_inside_event := (if even n then is_inside_event st
                                         else \<not> is_inside_event st)\<rparr>)"
  using assms
proof (induction n arbitrary: d st)
  case 0
  then show ?case by simp
next
  case (Suc n)
  from scanStudentQR_step [where verify = verify and t = t, OF Suc.prems] obtain d' where
    r: "scanStudentQR verify v t d =
           (d', SuccessResponse (if is_inside_event st then EXIT else ENTRY) []
                  (if is_inside_event st then 200 else 201))"
    and s': "Student_findByRegistrationNo reg (data d') =
           Some (st\<lparr>is_inside_event := \<not> is_inside_event st\<rparr>)"
    and v': "not_inactive v (data d')"
    by blast
  from Suc.IH [OF Suc.prems(1) s' v'] r show ?case
    by (simp add: case_prod_beta)
qed

text \<open>
  Claim C3. For a token that decodes to the registration number of a student, scanned
  by a volunteer who is not inactive: one scan records \<open>ENTRY\<close> and sets the flag when
  the flag is false, records \<open>EXIT\<close> and clears the flag when it is true; and the
  directions recorded by \<open>n\<close> scans in a row alternate, starting with \<open>ENTRY\<close> when the
  flag starts false, the flag ending flipped exactly when \<open>n\<close> is odd.
\<close>

theorem scans_alternate:
  assumes "verify t = Some reg"
    and "Student_findByRegistrationNo reg (data d) = Some st"
    and "not_inactive v (data d)"
  shows "fst (scans verify v t n d) = alternating (is_inside_event st) n \<and>
         map_option is_inside_event
           (Student_findByRegistrationNo reg (data (snd (scans verify v t n d)))) =
           Some (if even n then is_inside_event st else \<not> is_inside_event st) \<and>
         (\<exists>c. snd (scanStudentQR verify v t d) =
                SuccessResponse (if is_inside_event st then EXIT else ENTRY) [] c) \<and>
         map_option is_inside_event
           (Student_findByRegistrationNo reg (data (fst (scanStudentQR verify v t d)))) =
           Some (\<not> is_inside_event st) \<and>
         (\<not> is_inside_event st \<longrightarrow>
            take 4 (fst (scans verify v t (n + 4) d)) = [ENTRY, EXIT, ENTRY, EXIT])"
proof -
  from scanStudentQR_step [where verify = verify and t = t, OF assms] obtain d' where
    r: "scanStudentQR verify v t d =
           (d', SuccessResponse (if is_inside_event st then EXIT else ENTRY) []
                  (if is_inside_event st then 200 else 201))"
    and s': "Student_findByRegistrationNo reg (data d') =
           Some (st\<lparr>is_inside_event := \<not> is_inside_event st\<rparr>)"
    by blast
  have four: "take 4 (alternating False (n + 4)) = [ENTRY, EXIT, ENTRY, EXIT]"
    by (simp add: numeral_eq_Suc)
  from scans_alternating [where verify = verify and t = t and n = n, OF assms]
    scans_alternating [where verify = verify and t = t and n = "n + 4", OF assms] r s' four
  show ?thesis by auto
qed

theorem scans_alternate_witness:
  "fst (scans example_verify ''v1'' ''QR2'' 5 example_db) = [ENTRY, EXIT, ENTRY, EXIT, ENTRY] \<and>
   map_option is_inside_event
     (Student_findByRegistrationNo ''R2''
        (data (snd (scans example_verify ''v1'' ''QR2'' 5 example_db)))) = Some True"
proof -
  have v: "example_verify ''QR2'' = Some ''R2''" by (simp add: example_verify_def)
  have s: "Student_findByRegistrationNo ''R2'' (data example_db) =
             Some (student_row ''u2'' ''R2'' ''sc1'' False)"
    by (simp add: Student_findByRegistrationNo_def example_db_def example_store_def
        student_row_def)
  have a: "not_inactive ''v1'' (data example_db)"
    by (simp add: not_inactive_def Volunteer_findById_def example_db_def example_store_def)
  have i: "\<not> is_inside_event (student_row ''u2'' ''R2'' ''sc1'' False)"
    by (simp add: student_row_def)
  have alt: "alternating False 5 = [ENTRY, EXIT, ENTRY, EXIT, ENTRY]"
    by (simp add: numeral_eq_Suc)
  from scans_alternate [where verify = example_verify and t = "''QR2''" and n = 5, OF v s a] i
  show ?thesis
    by (simp add: alt)
qed

section \<open>Properties of the token codec\<close>

text \<open>
  Claim C8. A participant token verified at the instant it was generated is accepted
  and yields the subject it was generated for. Verified at any other instant, a token
  generated in window \<open>w\<close> is accepted exactly when the verifier's window lies in
  \<open>w, ..., w + GRACE_WINDOWS\<close>: in an earlier window the token is from the verifier's
  future and is rejected, in a later one it has expired.
\<close>

theorem participant_token_windows:
  assumes "0 < ROTATION_INTERVAL cfg"
  shows
    "verifyParticipantToken cfg sign (generateParticipantToken cfg sign n sid now) now = Inr sid \<and>
     verifyParticipantToken cfg sign (generateParticipantToken cfg sign n sid now) now' =
       (if window_of cfg now' < window_of cfg now then Inl FutureWindow
        else if window_of cfg now + GRACE_WINDOWS cfg < window_of cfg now' then Inl Expired
        else Inr sid) \<and>
     window_of cfg now * ROTATION_INTERVAL cfg \<le> now \<and>
     now < (window_of cfg now + 1) * ROTATION_INTERVAL cfg"
proof -
  have a: "verifyParticipantToken cfg sign (generateParticipantToken cfg sign n sid now) t =
       (if window_of cfg t < window_of cfg now then Inl FutureWindow
        else if window_of cfg now + GRACE_WINDOWS cfg < window_of cfg t then Inl Expired
        else Inr sid)" for t
    by (simp add: verifyParticipantToken_def generateParticipantToken_def Let_def)
  have b: "window_of cfg now * ROTATION_INTERVAL cfg \<le> now"
    by (simp add: window_of_def)
  have c: "now < (window_of cfg now + 1) * ROTATION_INTERVAL cfg"
    using assms dividend_less_div_times [of "ROTATION_INTERVAL cfg" now]
    by (simp add: window_of_def algebra_simps)
  from a [of now] a [of now'] b c show ?thesis by simp
qed

theorem participant_token_windows_witness:
  "verifyParticipantToken example_config example_sign
     (generateParticipantToken example_config example_sign ''x7'' ''2024SGTU10001'' 65) 65 =
     Inr ''2024SGTU10001'' \<and>
   verifyParticipantToken example_config example_sign
     (generateParticipantToken example_config example_sign ''x7'' ''2024SGTU10001'' 65) 95 =
     Inr ''2024SGTU10001'' \<and>
   verifyParticipantToken example_config example_sign
     (generateParticipantToken example_config example_sign ''x7'' ''2024SGTU10001'' 65) 125 =
     Inl Expired \<and>
   verifyParticipantToken example_config example_sign
     (generateParticipantToken example_config example_sign ''x7'' ''2024SGTU10001'' 65) 29 =
     Inl FutureWindow"
proof -
  have p: "0 < ROTATION_INTERVAL example_config" by (simp add: example_config_def)
  have w: "window_of example_config 65 = 2" "window_of example_config 95 = 3"
    "window_of example_config 125 = 4" "window_of example_config 29 = 0"
    "GRACE_WINDOWS example_config = 1"
    by (simp_all add: window_of_def example_config_def)
  from participant_token_windows [OF p, of example_sign "''x7''" "''2024SGTU10001''" 65 95]
    participant_token_windows [OF p, of example_sign "''x7''" "''2024SGTU10001''" 65 125]
    participant_token_windows [OF p, of example_sign "''x7''" "''2024SGTU10001''" 65 29]
  show ?thesis by (simp add: w)
qed

lemma tampered_token_rejected:
  "sg \<noteq> sign c \<Longrightarrow> verifyParticipantToken cfg sign (Token c sg) now = Inl BadSignature"
  by (simp add: verifyParticipantToken_def)

section \<open>Properties of the stall token\<close>

lemma base64_four:
  "base64 [a, b, c, d] =
     [b64 (unat a div 4), b64 (unat a mod 4 * 16 + unat b div 16),
      b64 (unat b mod 16 * 4 + unat c div 64), b64 (unat c mod 64),
      b64 (unat d div 4), b64 (unat d mod 4 * 16), CHR ''='', CHR ''='']"
  by simp

lemma b64_last:
  assumes "k < 4"
  shows "is_upper (b64 (k * 16)) \<or> is_lower (b64 (k * 16))"
proof -
  from assms have "k = 0 \<or> k = 1 \<or> k = 2 \<or> k = 3" by arith
  then show ?thesis
    by (auto simp: b64_def is_upper_def is_lower_def)
qed



lemma randomId_eq:
  "randomId (a, b, c, d) =
     take 6 (map lower_of
       (filter (\<lambda>c. is_lower c \<or> is_upper c \<or> is_digit c) (base64 [a, b, c, d])))"
  by (simp only: randomId_def prod.case toLowerCase_def)


lemma take_map_filter_length:
  assumes "x \<in> set xs" "p x"
  shows "1 \<le> length (take 6 (map f (filter p xs))) \<and> length (take 6 (map f (filter p xs))) \<le> 6"
proof -
  from assms have "filter p xs \<noteq> []" by (auto simp: filter_empty_conv)
  then have "1 \<le> length (filter p xs)" by (cases "filter p xs") simp_all
  then show ?thesis by simp
qed

lemma randomId_length: "1 \<le> length (randomId bytes) \<and> length (randomId bytes) \<le> 6"
proof -
  obtain a b c d where bytes: "bytes = (a, b, c, d)" by (cases bytes) auto
  have "unat d mod 4 < 4" by simp
  then have p: "is_lower (b64 (unat d mod 4 * 16)) \<or> is_upper (b64 (unat d mod 4 * 16)) \<or>
                is_digit (b64 (unat d mod 4 * 16))"
    using b64_last by blast
  have m: "b64 (unat d mod 4 * 16) \<in> set (base64 [a, b, c, d])"
    by (simp only: base64_four) simp
  show ?thesis
    unfolding bytes randomId_eq
    using m p by (rule take_map_filter_length)
qed




text \<open>
  Characters that are not letters or digits are stripped before the first six are
  taken, so the random part can come out shorter than the six characters that the
  guide's ``(33 chars)'' counts on, here a single one.
\<close>

lemma randomId_short: "randomId (251, 239, 190, 251) = ''w''"
  unfolding randomId_eq base64_four
  by (simp add: b64_def is_lower_def is_upper_def is_digit_def lower_of_def)
















end
